theory Spec2Isabelle
  imports Complex_Main
begin

section \<open>Data model of the canvas component\<close>

text \<open>
  The component \<^verbatim>\<open>Canvas\<close> of \<^verbatim>\<open>src/canvas/src/components/Canvas.tsx\<close> keeps its
  state in React state cells. A handler reads the cells of the render it was created in
  (its closure) and queues new values; the model of a handler therefore takes the state
  of that render and returns the state of the next one. JavaScript numbers are modelled
  as exact reals, except the history index, which only ever holds integers. A snapshot
  of the history shares its element objects with the store; every update of an element
  builds a new object and none changes one in place, so that lists of values stand for
  the arrays.
\<close>

record point =
  px :: real
  py :: real

text \<open>
  The payload \<^verbatim>\<open>data: any\<close> has the two shapes the component builds:
  \<^verbatim>\<open>{points, color, size, pressure}\<close> for a stroke and \<^verbatim>\<open>{text, color, size}\<close> for a
  text block. The type of \<^verbatim>\<open>pressure\<close> is declared outside this file and is the type
  parameter \<open>'p\<close>.
\<close>

datatype 'p elementData =
  PathData "point list" string real 'p
| TextData string string real

datatype elementType = Path | Text

record 'p canvasElement =
  el_id :: string
  el_type :: elementType
  el_data :: "'p elementData"
  el_x :: real
  el_y :: real
  el_width :: "real option"
  el_height :: "real option"
  el_selected :: "bool option"
  el_editing :: "bool option"

record bounds =
  b_x :: real
  b_y :: real
  b_width :: real
  b_height :: real

datatype tool = ToolSelect | ToolPencil | ToolEraser | ToolText | ToolPan

record 'p drawingSettings =
  ds_color :: string
  ds_size :: real
  ds_pressure :: 'p

record 'p props =
  activeTool :: tool
  drawingSettings :: "'p drawingSettings"

record eraserPos =
  er_x :: real
  er_y :: real
  er_visible :: bool

text \<open>
  The state cells of lines 57 to 75, in the order of the source, and the log of the
  messages handed to \<^verbatim>\<open>toast.success\<close>.
\<close>

record 'p state =
  isDrawing :: bool
  currentPath :: "point list"
  elements :: "'p canvasElement list"
  history :: "'p canvasElement list list"
  historyIndex :: int
  zoom :: real
  isPanning :: bool
  panOffset :: point
  lastPanPoint :: point
  selectedElement :: "string option"
  editingText :: "string option"
  textInput :: string
  textPosition :: point
  isDragging :: bool
  isResizing :: bool
  resizeHandle :: "string option"
  dragStart :: point
  eraserPosition :: eraserPos
  hoverHandle :: "string option"
  toasts :: "string list"

text \<open>
  \<^verbatim>\<open>TypeError\<close> is what JavaScript throws on a property read or a spread of
  \<^verbatim>\<open>undefined\<close>. \<^verbatim>\<open>NonFinite\<close> marks a result that holds \<^verbatim>\<open>Infinity\<close>, which the
  reals of this model do not have.
\<close>

datatype error = TypeError | NonFinite

definition origin :: point where
  "origin = \<lparr>px = 0, py = 0\<rparr>"

definition initialState :: "'p state" where
  "initialState =
     \<lparr>isDrawing = False, currentPath = [], elements = [], history = [[]],
      historyIndex = 0, zoom = 1, isPanning = False, panOffset = origin,
      lastPanPoint = origin, selectedElement = None, editingText = None,
      textInput = [], textPosition = origin, isDragging = False, isResizing = False,
      resizeHandle = None, dragStart = origin,
      eraserPosition = \<lparr>er_x = 0, er_y = 0, er_visible = False\<rparr>,
      hoverHandle = None, toasts = []\<rparr>"

text \<open>Truthiness of a \<^verbatim>\<open>string | null\<close> cell: neither \<^verbatim>\<open>null\<close> nor the empty string.\<close>

fun truthy :: "string option \<Rightarrow> bool" where
  "truthy None = False"
| "truthy (Some s) = (s \<noteq> [])"

section \<open>History: addToHistory, undo, redo\<close>

text \<open>
  \<^verbatim>\<open>Array.prototype.slice(0, end)\<close> for an integer \<^verbatim>\<open>end\<close>: a negative end counts from
  the end of the array and stops at 0.
\<close>

definition slice0 :: "'a list \<Rightarrow> int \<Rightarrow> 'a list" where
  "slice0 xs e = (if e < 0 then take (nat (int (length xs) + e)) xs else take (nat e) xs)"

text \<open>Reading \<^verbatim>\<open>xs[i]\<close> for an integer \<^verbatim>\<open>i\<close>: \<^verbatim>\<open>undefined\<close> out of range.\<close>

definition at_index :: "'a list \<Rightarrow> int \<Rightarrow> 'a option" where
  "at_index xs i = (if 0 \<le> i \<and> i < int (length xs) then Some (xs ! nat i) else None)"

text \<open>
  \<^verbatim>\<open>addToHistory\<close> (lines 143 to 148). The first argument is the render whose
  \<^verbatim>\<open>history\<close> and \<^verbatim>\<open>historyIndex\<close> the closure reads, the last the state the queued
  updates are applied to.
\<close>

definition addToHistory :: "'p state \<Rightarrow> 'p canvasElement list \<Rightarrow> 'p state \<Rightarrow> 'p state" where
  "addToHistory c newElements s =
     (let newHistory = slice0 (history c) (historyIndex c + 1) @ [newElements]
      in s\<lparr>history := newHistory, historyIndex := int (length newHistory) - 1\<rparr>)"

text \<open>
  The pair \<^verbatim>\<open>setElements(newElements); addToHistory(newElements)\<close> of the eraser, the
  pencil release, the text submit and \<^verbatim>\<open>clearCanvas\<close>: the operation the specification
  calls commit.
\<close>

definition commit :: "'p state \<Rightarrow> 'p canvasElement list \<Rightarrow> 'p state" where
  "commit c newElements = addToHistory c newElements (c\<lparr>elements := newElements\<rparr>)"

definition undo :: "'p state \<Rightarrow> error + 'p state" where
  "undo c =
     (if historyIndex c > 0 then
        (case at_index (history c) (historyIndex c - 1) of
           None \<Rightarrow> Inl TypeError
         | Some snapshot \<Rightarrow>
             Inr (c\<lparr>historyIndex := historyIndex c - 1, elements := snapshot,
                    selectedElement := None, toasts := toasts c @ [''Undone!'']\<rparr>))
      else Inr c)"

definition redo :: "'p state \<Rightarrow> error + 'p state" where
  "redo c =
     (if historyIndex c < int (length (history c)) - 1 then
        (case at_index (history c) (historyIndex c + 1) of
           None \<Rightarrow> Inl TypeError
         | Some snapshot \<Rightarrow>
             Inr (c\<lparr>historyIndex := historyIndex c + 1, elements := snapshot,
                    selectedElement := None, toasts := toasts c @ [''Redone!'']\<rparr>))
      else Inr c)"

text \<open>
  \<^verbatim>\<open>clearCanvas\<close> (lines 650 to 656). The function reaches its caller through
  \<^verbatim>\<open>window.clearCanvas\<close>, which the effect of lines 658 to 663 registers again only when
  the elements change: the render \<open>c\<close> whose history and index the call reads can be
  older than the render \<open>s\<close> it updates, as after the release of a drag.
\<close>

definition clearCanvas :: "'p state \<Rightarrow> 'p state \<Rightarrow> 'p state" where
  "clearCanvas c s =
     (addToHistory c [] (s\<lparr>elements := []\<rparr>))
       \<lparr>selectedElement := None, toasts := toasts s @ [''Canvas cleared!'']\<rparr>"

text \<open>Sequences of history operations, stopping at the first exception.\<close>

datatype 'p historyOp =
  SetElements "'p canvasElement list"
| AddToHistory "'p canvasElement list"
| Commit "'p canvasElement list"
| Undo
| Redo

fun applyOp :: "'p state \<Rightarrow> 'p historyOp \<Rightarrow> error + 'p state" where
  "applyOp s (SetElements es) = Inr (s\<lparr>elements := es\<rparr>)"
| "applyOp s (AddToHistory es) = Inr (addToHistory s es s)"
| "applyOp s (Commit es) = Inr (commit s es)"
| "applyOp s Undo = undo s"
| "applyOp s Redo = redo s"

fun run :: "'p state \<Rightarrow> 'p historyOp list \<Rightarrow> error + 'p state" where
  "run s [] = Inr s"
| "run s (op # ops) = (case applyOp s op of Inl e \<Rightarrow> Inl e | Inr s' \<Rightarrow> run s' ops)"

fun isEdit :: "'p historyOp \<Rightarrow> bool" where
  "isEdit Undo = False"
| "isEdit Redo = False"
| "isEdit _ = True"

text \<open>The history index is a position of the history log.\<close>

definition validIndex :: "'p state \<Rightarrow> bool" where
  "validIndex s = (0 \<le> historyIndex s \<and> historyIndex s < int (length (history s)))"

section \<open>Bounds and hit-testing\<close>

text \<open>
  \<^verbatim>\<open>String.prototype.split('\n')\<close>: the lines of a string; the empty string has one
  empty line. A \<open>char\<close> of the model stands for one code unit of the JavaScript string;
  it holds the code units below 256.
\<close>

fun splitNl :: "string \<Rightarrow> string list" where
  "splitNl [] = [[]]"
| "splitNl (c # cs) =
     (if c = CHR 0x0A then [] # splitNl cs
      else (case splitNl cs of [] \<Rightarrow> [[c]] | l # ls \<Rightarrow> (c # l) # ls))"

text \<open>
  \<^verbatim>\<open>Math.max(...xs)\<close> and \<^verbatim>\<open>Math.min(...xs)\<close>: \<open>None\<close> stands for the \<^verbatim>\<open>-Infinity\<close> and
  \<^verbatim>\<open>Infinity\<close> that JavaScript returns when there is no argument.
\<close>

fun Math_max :: "real list \<Rightarrow> real option" where
  "Math_max [] = None"
| "Math_max (x # xs) = Some (fold max xs x)"

fun Math_min :: "real list \<Rightarrow> real option" where
  "Math_min [] = None"
| "Math_min (x # xs) = Some (fold min xs x)"

text \<open>
  \<^verbatim>\<open>getElementBounds\<close> (lines 241 to 277). The argument \<open>ctx\<close> is the 2d context of
  a fresh canvas: \<open>Some f\<close> when the browser gives one, where \<open>f px line\<close> is the width
  \<^verbatim>\<open>measureText(line).width\<close> under the font of \<open>px\<close> pixels, and \<open>None\<close> when it gives
  none and the fallback of lines 258 to 265 runs. A text element whose payload has no
  \<^verbatim>\<open>text\<close> throws at \<^verbatim>\<open>element.data.text.split\<close>; a stroke without points has bounds
  made of \<^verbatim>\<open>Infinity\<close>.
\<close>

definition getElementBounds ::
  "(real \<Rightarrow> string \<Rightarrow> real) option \<Rightarrow> 'p canvasElement \<Rightarrow> error + bounds" where
  "getElementBounds ctx element =
     (if el_type element = Text then
        (case el_data element of
           PathData _ _ _ _ \<Rightarrow> Inl TypeError
         | TextData text _ sz \<Rightarrow>
             (let lines = splitNl text in
              case ctx of
                Some measureText \<Rightarrow>
                  (case Math_max (map (measureText (sz * 8)) lines) of
                     None \<Rightarrow> Inl NonFinite
                   | Some maxWidth \<Rightarrow>
                       Inr \<lparr>b_x = el_x element, b_y = el_y element, b_width = maxWidth,
                            b_height = real (length lines) * sz * 10\<rparr>)
              | None \<Rightarrow>
                  (case Math_max (map (\<lambda>line. real (length line)) lines) of
                     None \<Rightarrow> Inl NonFinite
                   | Some maxLineLength \<Rightarrow>
                       Inr \<lparr>b_x = el_x element, b_y = el_y element,
                            b_width = maxLineLength * sz * 6,
                            b_height = real (length lines) * sz * 10\<rparr>)))
      else
        (case el_data element of
           PathData points _ _ _ \<Rightarrow>
             (let xs = map px points; ys = map py points in
              case (Math_min xs, Math_max xs, Math_min ys, Math_max ys) of
                (Some minX, Some maxX, Some minY, Some maxY) \<Rightarrow>
                  Inr \<lparr>b_x = minX, b_y = minY, b_width = maxX - minX,
                       b_height = maxY - minY\<rparr>
              | _ \<Rightarrow> Inl NonFinite)
         | TextData _ _ _ \<Rightarrow>
             Inr \<lparr>b_x = el_x element, b_y = el_y element, b_width = 100, b_height = 100\<rparr>))"

text \<open>The point-in-box test of lines 295 and 296.\<close>

definition inBox :: "point \<Rightarrow> bounds \<Rightarrow> bool" where
  "inBox pos b =
     (px pos \<ge> b_x b \<and> px pos \<le> b_x b + b_width b \<and>
      py pos \<ge> b_y b \<and> py pos \<le> b_y b + b_height b)"

text \<open>
  The loop of \<^verbatim>\<open>getElementAtPosition\<close> (lines 290 to 301): \<open>scanDown \<dots> (Suc i)\<close> is
  the iteration at index \<open>i\<close>, \<open>scanDown \<dots> 0\<close> the exit of the loop. With bounds made of
  \<^verbatim>\<open>Infinity\<close> every comparison of the test is false and the loop goes on.
\<close>

fun scanDown ::
  "(real \<Rightarrow> string \<Rightarrow> real) option \<Rightarrow> 'p canvasElement list \<Rightarrow> point \<Rightarrow> nat \<Rightarrow>
   error + 'p canvasElement option" where
  "scanDown ctx es pos 0 = Inr None"
| "scanDown ctx es pos (Suc i) =
     (case getElementBounds ctx (es ! i) of
        Inl TypeError \<Rightarrow> Inl TypeError
      | Inl NonFinite \<Rightarrow> scanDown ctx es pos i
      | Inr b \<Rightarrow> if inBox pos b then Inr (Some (es ! i)) else scanDown ctx es pos i)"

definition getElementAtPosition ::
  "(real \<Rightarrow> string \<Rightarrow> real) option \<Rightarrow> 'p canvasElement list \<Rightarrow> point \<Rightarrow>
   error + 'p canvasElement option" where
  "getElementAtPosition ctx es pos = scanDown ctx es pos (length es)"

text \<open>
  \<^verbatim>\<open>getResizeHandle\<close> (lines 303 to 325). A text block always has a line, so only a
  stroke without points has bounds made of \<^verbatim>\<open>Infinity\<close>; then every handle coordinate
  is \<^verbatim>\<open>Infinity\<close> or \<^verbatim>\<open>NaN\<close> and no handle matches.
\<close>

definition handlesOf :: "bounds \<Rightarrow> (point \<times> string) list" where
  "handlesOf b =
     [(\<lparr>px = b_x b - 5, py = b_y b - 5\<rparr>, ''nw''),
      (\<lparr>px = b_x b + b_width b + 5, py = b_y b - 5\<rparr>, ''ne''),
      (\<lparr>px = b_x b - 5, py = b_y b + b_height b + 5\<rparr>, ''sw''),
      (\<lparr>px = b_x b + b_width b + 5, py = b_y b + b_height b + 5\<rparr>, ''se''),
      (\<lparr>px = b_x b + b_width b / 2, py = b_y b - 5\<rparr>, ''n''),
      (\<lparr>px = b_x b + b_width b / 2, py = b_y b + b_height b + 5\<rparr>, ''s''),
      (\<lparr>px = b_x b - 5, py = b_y b + b_height b / 2\<rparr>, ''w''),
      (\<lparr>px = b_x b + b_width b + 5, py = b_y b + b_height b / 2\<rparr>, ''e'')]"

definition getResizeHandle ::
  "real \<Rightarrow> (real \<Rightarrow> string \<Rightarrow> real) option \<Rightarrow> point \<Rightarrow> 'p canvasElement \<Rightarrow>
   error + string option" where
  "getResizeHandle zm ctx pos element =
     (case getElementBounds ctx element of
        Inl TypeError \<Rightarrow> Inl TypeError
      | Inl NonFinite \<Rightarrow> Inr None
      | Inr b \<Rightarrow>
          (let tolerance = 8 / zm in
           Inr (map_option snd
                  (find (\<lambda>(h, _). \<bar>px pos - px h\<bar> < tolerance \<and> \<bar>py pos - py h\<bar> < tolerance)
                     (handlesOf b)))))"

section \<open>Pointer, keyboard and zoom handlers\<close>

text \<open>
  What a handler takes from outside the component: the bounding rectangle of the canvas
  (\<open>None\<close> when \<^verbatim>\<open>canvasRef.current\<close> is null; a canvas that is there gives its 2d
  context), the text-measuring context of \<^verbatim>\<open>getElementBounds\<close>, and the clock
  \<^verbatim>\<open>Date.now()\<close>.
\<close>

record rect =
  r_left :: real
  r_top :: real

record env =
  canvasRect :: "rect option"
  textCtx :: "(real \<Rightarrow> string \<Rightarrow> real) option"
  now :: nat

record mouseEvent =
  clientX :: real
  clientY :: real
  button :: int
  ctrlKey :: bool

record keyEvent =
  key :: string
  shiftKey :: bool

text \<open>The decimal digits of a number, as a template literal prints \<^verbatim>\<open>Date.now()\<close>.\<close>

fun showNat :: "nat \<Rightarrow> string" where
  "showNat n =
     (if n < 10 then [''0123456789'' ! n]
      else showNat (n div 10) @ [''0123456789'' ! (n mod 10)])"

declare showNat.simps [simp del]

text \<open>
  \<^verbatim>\<open>String.prototype.trim\<close> strips white space and line terminators. A \<open>char\<close> of
  the model holds a code unit below 256; among those the stripped ones are tab, line
  feed, vertical tab, form feed, carriage return, space and the no-break space U+00A0.
\<close>

definition isWhiteSpace :: "char \<Rightarrow> bool" where
  "isWhiteSpace ch =
     (ch = CHR 0x09 \<or> ch = CHR 0x0A \<or> ch = CHR 0x0B \<or> ch = CHR 0x0C \<or> ch = CHR 0x0D \<or>
      ch = CHR 0x20 \<or> ch = CHR 0xA0)"

definition trim :: "string \<Rightarrow> string" where
  "trim str = rev (dropWhile isWhiteSpace (rev (dropWhile isWhiteSpace str)))"

text \<open>\<^verbatim>\<open>Array.prototype.findIndex\<close>: the first index whose entry passes, or \<open>-1\<close>.\<close>

fun findIndexFrom :: "('a \<Rightarrow> bool) \<Rightarrow> 'a list \<Rightarrow> int \<Rightarrow> int" where
  "findIndexFrom P [] i = - 1"
| "findIndexFrom P (x # xs) i = (if P x then i else findIndexFrom P xs (i + 1))"

definition findIndex :: "('a \<Rightarrow> bool) \<Rightarrow> 'a list \<Rightarrow> int" where
  "findIndex P xs = findIndexFrom P xs 0"

text \<open>\<^verbatim>\<open>Array.prototype.map\<close> with a callback that may throw.\<close>

fun mapE :: "('a \<Rightarrow> error + 'b) \<Rightarrow> 'a list \<Rightarrow> error + 'b list" where
  "mapE f [] = Inr []"
| "mapE f (x # xs) =
     (case f x of
        Inl err \<Rightarrow> Inl err
      | Inr y \<Rightarrow> (case mapE f xs of Inl err \<Rightarrow> Inl err | Inr ys \<Rightarrow> Inr (y # ys)))"

text \<open>\<^verbatim>\<open>getMousePos\<close> (lines 279 to 288): from client coordinates to world coordinates.\<close>

definition getMousePos :: "env \<Rightarrow> 'p state \<Rightarrow> point \<Rightarrow> point" where
  "getMousePos ev c client =
     (case canvasRect ev of
        None \<Rightarrow> origin
      | Some r \<Rightarrow>
          \<lparr>px = (px client - r_left r - px (panOffset c)) / zoom c,
           py = (py client - r_top r - py (panOffset c)) / zoom c\<rparr>)"

text \<open>
  The transform of the renderer (lines 179 and 180: translate by the pan offset, then
  scale by the zoom), followed by the position of the canvas in the window: from world
  coordinates to client coordinates.
\<close>

definition worldToClient :: "rect \<Rightarrow> 'p state \<Rightarrow> point \<Rightarrow> point" where
  "worldToClient r c w =
     \<lparr>px = px w * zoom c + px (panOffset c) + r_left r,
      py = py w * zoom c + py (panOffset c) + r_top r\<rparr>"

definition clientOf :: "mouseEvent \<Rightarrow> point" where
  "clientOf e = \<lparr>px = clientX e, py = clientY e\<rparr>"

text \<open>\<^verbatim>\<open>handleMouseDown\<close> (lines 327 to 392).\<close>

definition handleMouseDown :: "'p props \<Rightarrow> env \<Rightarrow> 'p state \<Rightarrow> mouseEvent \<Rightarrow> error + 'p state" where
  "handleMouseDown props ev c e =
     (let pos = getMousePos ev c (clientOf e) in
      if button e = 1 \<or> ctrlKey e \<or> activeTool props = ToolPan then
        Inr (c\<lparr>isPanning := True, lastPanPoint := clientOf e\<rparr>)
      else if activeTool props = ToolSelect then
        (case getElementAtPosition (textCtx ev) (elements c) pos of
           Inl err \<Rightarrow> Inl err
         | Inr None \<Rightarrow>
             Inr (c\<lparr>selectedElement := None,
                    elements := map (\<lambda>el. el\<lparr>el_selected := Some False\<rparr>) (elements c)\<rparr>)
         | Inr (Some element) \<Rightarrow>
             if selectedElement c = Some (el_id element) then
               (case getResizeHandle (zoom c) (textCtx ev) pos element of
                  Inl err \<Rightarrow> Inl err
                | Inr (Some handle) \<Rightarrow>
                    Inr (c\<lparr>isResizing := True, resizeHandle := Some handle, dragStart := pos\<rparr>)
                | Inr None \<Rightarrow>
                    if el_type element = Text then
                      (case el_data element of
                         PathData _ _ _ _ \<Rightarrow> Inl TypeError
                       | TextData text _ _ \<Rightarrow>
                           Inr (c\<lparr>editingText := Some (el_id element), textInput := text,
                                  textPosition := \<lparr>px = el_x element, py = el_y element\<rparr>,
                                  elements :=
                                    map (\<lambda>el. el\<lparr>el_selected := Some False,
                                                   el_editing := Some (el_id el = el_id element)\<rparr>)
                                      (elements c)\<rparr>))
                    else Inr (c\<lparr>isDragging := True, dragStart := pos\<rparr>))
             else
               Inr (c\<lparr>selectedElement := Some (el_id element),
                      elements :=
                        map (\<lambda>el. el\<lparr>el_selected := Some (el_id el = el_id element)\<rparr>)
                          (elements c),
                      isDragging := True, dragStart := pos\<rparr>))
      else if activeTool props = ToolPencil then
        Inr (c\<lparr>isDrawing := True, currentPath := [pos]\<rparr>)
      else if activeTool props = ToolEraser then
        (case getElementAtPosition (textCtx ev) (elements c) pos of
           Inl err \<Rightarrow> Inl err
         | Inr None \<Rightarrow> Inr c
         | Inr (Some element) \<Rightarrow>
             (let newElements = filter (\<lambda>el. el_id el \<noteq> el_id element) (elements c) in
              Inr ((commit c newElements)\<lparr>toasts := toasts c @ [''Element erased!'']\<rparr>)))
      else if activeTool props = ToolText then
        Inr (c\<lparr>editingText := Some (''text-'' @ showNat (now ev)), textPosition := pos,
               textInput := []\<rparr>)
      else Inr c)"

text \<open>The element update of a drag move (lines 455 to 473).\<close>

definition dragElement ::
  "string option \<Rightarrow> real \<Rightarrow> real \<Rightarrow> 'p canvasElement \<Rightarrow> 'p canvasElement" where
  "dragElement sel deltaX deltaY el =
     (if Some (el_id el) = sel then
        (case (el_type el, el_data el) of
           (Path, PathData points col sz pr) \<Rightarrow>
             el\<lparr>el_data :=
                  PathData (map (\<lambda>p. \<lparr>px = px p + deltaX, py = py p + deltaY\<rparr>) points)
                    col sz pr\<rparr>
         | _ \<Rightarrow> el\<lparr>el_x := el_x el + deltaX, el_y := el_y el + deltaY\<rparr>)
      else el)"

text \<open>The \<^verbatim>\<open>switch\<close> of lines 488 to 509: the box recomputed for the grabbed handle.\<close>

definition resizeBounds :: "string \<Rightarrow> real \<Rightarrow> real \<Rightarrow> bounds \<Rightarrow> bounds" where
  "resizeBounds handle deltaX deltaY b =
     (if handle = ''se'' then
        b\<lparr>b_width := max 20 (b_width b + deltaX), b_height := max 20 (b_height b + deltaY)\<rparr>
      else if handle = ''sw'' then
        b\<lparr>b_x := b_x b + deltaX, b_width := max 20 (b_width b - deltaX),
          b_height := max 20 (b_height b + deltaY)\<rparr>
      else if handle = ''ne'' then
        b\<lparr>b_width := max 20 (b_width b + deltaX), b_y := b_y b + deltaY,
          b_height := max 20 (b_height b - deltaY)\<rparr>
      else if handle = ''nw'' then
        b\<lparr>b_x := b_x b + deltaX, b_y := b_y b + deltaY,
          b_width := max 20 (b_width b - deltaX), b_height := max 20 (b_height b - deltaY)\<rparr>
      else b)"

text \<open>
  The element update of a resize move (lines 483 to 527). With bounds made of
  \<^verbatim>\<open>Infinity\<close> the new anchor is not a real number.
\<close>

definition resizeElement ::
  "(real \<Rightarrow> string \<Rightarrow> real) option \<Rightarrow> string option \<Rightarrow> string \<Rightarrow> real \<Rightarrow> real \<Rightarrow>
   'p canvasElement \<Rightarrow> error + 'p canvasElement" where
  "resizeElement ctx sel handle deltaX deltaY el =
     (if Some (el_id el) = sel then
        (case getElementBounds ctx el of
           Inl err \<Rightarrow> Inl err
         | Inr b \<Rightarrow>
             (let newBounds = resizeBounds handle deltaX deltaY b in
              if el_type el = Text then
                (case el_data el of
                   PathData _ _ _ _ \<Rightarrow> Inl TypeError
                 | TextData text col _ \<Rightarrow>
                     (let newSize =
                            max 1 (b_height newBounds / (real (length (splitNl text)) * 10))
                      in Inr (el\<lparr>el_x := b_x newBounds, el_y := b_y newBounds,
                                el_data := TextData text col newSize\<rparr>)))
              else Inr (el\<lparr>el_x := b_x newBounds, el_y := b_y newBounds\<rparr>)))
      else Inr el)"

text \<open>
  \<^verbatim>\<open>handleMouseMove\<close> (lines 394 to 532). Every read is of the render \<open>c\<close>; the
  updater functions of \<^verbatim>\<open>setElements\<close> run on the elements queued so far. The canvas
  drawing of the stroke preview is not part of the state.
\<close>

definition hoverStep ::
  "'p props \<Rightarrow> env \<Rightarrow> 'p state \<Rightarrow> point \<Rightarrow> 'p state \<Rightarrow> error + 'p state" where
  "hoverStep props ev c pos s =
     (if activeTool props = ToolSelect \<and> truthy (selectedElement c) \<and> \<not> isDragging c \<and>
         \<not> isResizing c then
        (case find (\<lambda>el. Some (el_id el) = selectedElement c) (elements c) of
           None \<Rightarrow> Inr s
         | Some element \<Rightarrow>
             (case getResizeHandle (zoom c) (textCtx ev) pos element of
                Inl err \<Rightarrow> Inl err
              | Inr handle \<Rightarrow> Inr (s\<lparr>hoverHandle := handle\<rparr>)))
      else Inr s)"

definition dragStep :: "'p props \<Rightarrow> 'p state \<Rightarrow> point \<Rightarrow> 'p state \<Rightarrow> 'p state" where
  "dragStep props c pos s =
     (if isDragging c \<and> truthy (selectedElement c) \<and> activeTool props = ToolSelect then
        (let deltaX = px pos - px (dragStart c); deltaY = py pos - py (dragStart c) in
         s\<lparr>elements := map (dragElement (selectedElement c) deltaX deltaY) (elements s),
           dragStart := pos\<rparr>)
      else s)"

definition resizeStep :: "env \<Rightarrow> 'p state \<Rightarrow> point \<Rightarrow> 'p state \<Rightarrow> error + 'p state" where
  "resizeStep ev c pos s =
     (case resizeHandle c of
        None \<Rightarrow> Inr s
      | Some handle \<Rightarrow>
          if isResizing c \<and> truthy (selectedElement c) \<and> handle \<noteq> [] then
            (let deltaX = px pos - px (dragStart c); deltaY = py pos - py (dragStart c) in
             case mapE (resizeElement (textCtx ev) (selectedElement c) handle deltaX deltaY)
                    (elements s) of
               Inl err \<Rightarrow> Inl err
             | Inr es \<Rightarrow> Inr (s\<lparr>elements := es, dragStart := pos\<rparr>))
          else Inr s)"

definition handleMouseMove :: "'p props \<Rightarrow> env \<Rightarrow> 'p state \<Rightarrow> mouseEvent \<Rightarrow> error + 'p state" where
  "handleMouseMove props ev c e =
     (let pos = getMousePos ev c (clientOf e);
          s1 = (if activeTool props = ToolEraser then
                  (case canvasRect ev of
                     None \<Rightarrow> c
                   | Some r \<Rightarrow>
                       c\<lparr>eraserPosition :=
                           \<lparr>er_x = clientX e - r_left r, er_y = clientY e - r_top r,
                            er_visible = True\<rparr>\<rparr>)
                else c\<lparr>eraserPosition := (eraserPosition c)\<lparr>er_visible := False\<rparr>\<rparr>)
      in case hoverStep props ev c pos s1 of
           Inl err \<Rightarrow> Inl err
         | Inr s2 \<Rightarrow>
             if isPanning c then
               Inr (s2\<lparr>panOffset :=
                          \<lparr>px = px (panOffset s2) + (clientX e - px (lastPanPoint c)),
                           py = py (panOffset s2) + (clientY e - py (lastPanPoint c))\<rparr>,
                        lastPanPoint := clientOf e\<rparr>)
             else if isDrawing c \<and> activeTool props = ToolPencil \<and> canvasRect ev = None then
               Inr (s2\<lparr>currentPath := currentPath c @ [pos]\<rparr>)
             else
               (let s3 = (if isDrawing c \<and> activeTool props = ToolPencil then
                            s2\<lparr>currentPath := currentPath c @ [pos]\<rparr>
                          else s2)
                in resizeStep ev c pos (dragStep props c pos s3)))"

text \<open>\<^verbatim>\<open>handleMouseUp\<close> (lines 534 to 566).\<close>

definition newPathElement :: "'p props \<Rightarrow> env \<Rightarrow> point list \<Rightarrow> 'p canvasElement" where
  "newPathElement props ev pts =
     \<lparr>el_id = ''path-'' @ showNat (now ev), el_type = Path,
      el_data = PathData pts (ds_color (drawingSettings props)) (ds_size (drawingSettings props))
                  (ds_pressure (drawingSettings props)),
      el_x = 0, el_y = 0, el_width = None, el_height = None, el_selected = None,
      el_editing = None\<rparr>"

definition handleMouseUp :: "'p props \<Rightarrow> env \<Rightarrow> 'p state \<Rightarrow> 'p state" where
  "handleMouseUp props ev c =
     (if isPanning c then c\<lparr>isPanning := False\<rparr>
      else
        (let s1 = (if isDragging c \<or> isResizing c then
                     addToHistory c (elements c)
                       (c\<lparr>isDragging := False, isResizing := False, resizeHandle := None\<rparr>)
                   else c)
         in if isDrawing c \<and> activeTool props = ToolPencil \<and> length (currentPath c) > 0 then
              (let newElement = newPathElement props ev (currentPath c);
                   newElements = elements c @ [newElement]
               in (addToHistory c newElements (s1\<lparr>elements := newElements\<rparr>))
                    \<lparr>currentPath := [], isDrawing := False\<rparr>)
            else s1))"

text \<open>\<^verbatim>\<open>handleTextInputChange\<close> (lines 86 to 89): the typed content; the resizing of the
  text area is not part of the state.\<close>

definition handleTextInputChange :: "'p state \<Rightarrow> string \<Rightarrow> 'p state" where
  "handleTextInputChange c v = c\<lparr>textInput := v\<rparr>"

text \<open>\<^verbatim>\<open>handleTextSubmit\<close> (lines 568 to 614).\<close>

definition newTextElement :: "'p props \<Rightarrow> 'p state \<Rightarrow> string \<Rightarrow> 'p canvasElement" where
  "newTextElement props c ident =
     \<lparr>el_id = ident, el_type = Text,
      el_data = TextData (textInput c) (ds_color (drawingSettings props))
                  (ds_size (drawingSettings props)),
      el_x = px (textPosition c), el_y = py (textPosition c), el_width = None,
      el_height = None, el_selected = None, el_editing = Some False\<rparr>"

definition handleTextSubmit :: "'p props \<Rightarrow> 'p state \<Rightarrow> 'p state" where
  "handleTextSubmit props c =
     (case editingText c of
        None \<Rightarrow> c\<lparr>editingText := None, textInput := []\<rparr>
      | Some ident \<Rightarrow>
          if trim (textInput c) \<noteq> [] \<and> ident \<noteq> [] then
            (let existingElementIndex = findIndex (\<lambda>el. el_id el = ident) (elements c);
                 newElements =
                   (if existingElementIndex \<ge> 0 then
                      (elements c)
                        [nat existingElementIndex :=
                           (elements c ! nat existingElementIndex)
                             \<lparr>el_data := TextData (textInput c) (ds_color (drawingSettings props))
                                          (ds_size (drawingSettings props)),
                              el_editing := Some False\<rparr>]
                    else elements c @ [newTextElement props c ident])
             in (commit c newElements)
                  \<lparr>editingText := None, textInput := [], toasts := toasts c @ [''Text saved!'']\<rparr>)
          else c\<lparr>editingText := None, textInput := []\<rparr>)"

text \<open>\<^verbatim>\<open>handleTextAreaBlur\<close> (lines 91 to 98) and \<^verbatim>\<open>handleKeyDown\<close> (lines 616 to 627).\<close>

definition handleTextAreaBlur :: "'p props \<Rightarrow> 'p state \<Rightarrow> 'p state" where
  "handleTextAreaBlur props c =
     (if trim (textInput c) \<noteq> [] then handleTextSubmit props c
      else c\<lparr>editingText := None, textInput := []\<rparr>)"

definition handleKeyDown :: "'p props \<Rightarrow> 'p state \<Rightarrow> keyEvent \<Rightarrow> 'p state" where
  "handleKeyDown props c e =
     (if key e = ''Enter'' \<and> shiftKey e then c
      else if key e = ''Enter'' then handleTextSubmit props c
      else if key e = ''Escape'' then c\<lparr>editingText := None, textInput := []\<rparr>
      else c)"

text \<open>\<^verbatim>\<open>handleZoom\<close> (lines 629 to 648).\<close>

definition handleZoom :: "env \<Rightarrow> 'p state \<Rightarrow> real \<Rightarrow> point option \<Rightarrow> 'p state" where
  "handleZoom ev c delta zoomCenter =
     (let newZoom = max (1 / 10) (min 5 (zoom c + delta)) in
      case (canvasRect ev, zoomCenter) of
        (Some r, Some zc) \<Rightarrow>
          (let mouseX = (px zc - r_left r - px (panOffset c)) / zoom c;
               mouseY = (py zc - r_top r - py (panOffset c)) / zoom c;
               newPanX = px zc - r_left r - mouseX * newZoom;
               newPanY = py zc - r_top r - mouseY * newZoom
           in c\<lparr>zoom := newZoom, panOffset := \<lparr>px = newPanX, py = newPanY\<rparr>\<rparr>)
      | _ \<Rightarrow> c\<lparr>zoom := newZoom\<rparr>)"

text \<open>
  The condition of line 206 under which \<^verbatim>\<open>redrawCanvas\<close> draws the selection border and
  the eight handles of an element.
\<close>

definition drawsSelection :: "'p state \<Rightarrow> 'p canvasElement \<Rightarrow> bool" where
  "drawsSelection c element =
     (el_selected element = Some True \<and> Some (el_id element) = selectedElement c)"

text \<open>The index is at the last snapshot: what holds after edits only.\<close>

definition atTail :: "'p state \<Rightarrow> bool" where
  "atTail s = (historyIndex s = int (length (history s)) - 1 \<and> history s \<noteq> [])"

text \<open>
  What the specification says of hit-testing: a point-in-box test against the bounds,
  scanned topmost first (in reverse order of insertion), giving the first match or none.
\<close>

definition hits :: "(real \<Rightarrow> string \<Rightarrow> real) option \<Rightarrow> point \<Rightarrow> 'p canvasElement \<Rightarrow> bool" where
  "hits ctx pos element =
     (case getElementBounds ctx element of Inl _ \<Rightarrow> False | Inr b \<Rightarrow> inBox pos b)"

definition hitTestSpec ::
  "(real \<Rightarrow> string \<Rightarrow> real) option \<Rightarrow> 'p canvasElement list \<Rightarrow> point \<Rightarrow> 'p canvasElement option" where
  "hitTestSpec ctx es pos = find (hits ctx pos) (rev es)"

section \<open>Boxes and well-formed stores\<close>

text \<open>A box by its origin, width and height.\<close>

definition box :: "real \<Rightarrow> real \<Rightarrow> real \<Rightarrow> real \<Rightarrow> bounds" where
  "box x y w h = \<lparr>b_x = x, b_y = y, b_width = w, b_height = h\<rparr>"

text \<open>
  The elements the component builds: a stroke payload sits on an element of type
  \<^verbatim>\<open>path\<close> and has at least one point. A state is well formed when the store and every
  snapshot of the history hold such elements only.
\<close>

definition wellFormed :: "'p canvasElement \<Rightarrow> bool" where
  "wellFormed el =
     (case el_data el of
        PathData pts _ _ _ \<Rightarrow> el_type el = Path \<and> pts \<noteq> []
      | TextData _ _ _ \<Rightarrow> True)"

definition storeOk :: "'p state \<Rightarrow> bool" where
  "storeOk s = (list_all wellFormed (elements s) \<and> list_all (list_all wellFormed) (history s))"

section \<open>Example values\<close>

definition stroke :: "string \<Rightarrow> point list \<Rightarrow> unit canvasElement" where
  "stroke ident pts =
     \<lparr>el_id = ident, el_type = Path, el_data = PathData pts ''#000000'' 4 (),
      el_x = 0, el_y = 0, el_width = None, el_height = None, el_selected = None,
      el_editing = None\<rparr>"

definition strokeA :: "unit canvasElement" where
  "strokeA = stroke ''path-1'' [\<lparr>px = 0, py = 0\<rparr>, \<lparr>px = 50, py = 50\<rparr>]"

definition strokeB :: "unit canvasElement" where
  "strokeB = stroke ''path-2'' [\<lparr>px = 25, py = 25\<rparr>, \<lparr>px = 75, py = 75\<rparr>]"

definition exampleProps :: "unit props" where
  "exampleProps =
     \<lparr>activeTool = ToolPencil,
      drawingSettings = \<lparr>ds_color = ''#000000'', ds_size = 4, ds_pressure = ()\<rparr>\<rparr>"

definition exampleEnv :: env where
  "exampleEnv = \<lparr>canvasRect = Some \<lparr>r_left = 0, r_top = 0\<rparr>, textCtx = None, now = 7\<rparr>"

text \<open>Two commits, and then one undo: the history holds three snapshots.\<close>

definition twoCommits :: "unit state" where
  "twoCommits = commit (commit initialState [strokeA]) [strokeA, strokeB]"

definition afterUndo :: "unit state" where
  "afterUndo =
     twoCommits\<lparr>historyIndex := 1, elements := [strokeA], selectedElement := None,
                toasts := [''Undone!'']\<rparr>"

text \<open>The same log with the index at its first snapshot.\<close>

definition atStart :: "unit state" where
  "atStart = twoCommits\<lparr>historyIndex := 0, elements := []\<rparr>"

definition zoomCenterExample :: point where
  "zoomCenterExample = \<lparr>px = 100, py = 80\<rparr>"

text \<open>
  A pencil stroke in progress: a press at the origin and two moves, on a canvas at the
  window's origin with zoom 1 and no pan. Then a press of the middle button before the
  release.
\<close>

definition mouseAt :: "real \<Rightarrow> real \<Rightarrow> int \<Rightarrow> mouseEvent" where
  "mouseAt x y b = \<lparr>clientX = x, clientY = y, button = b, ctrlKey = False\<rparr>"

definition threePoints :: "point list" where
  "threePoints = [\<lparr>px = 0, py = 0\<rparr>, \<lparr>px = 5, py = 5\<rparr>, \<lparr>px = 10, py = 0\<rparr>]"

definition drawing :: "unit state" where
  "drawing = initialState\<lparr>isDrawing := True, currentPath := threePoints\<rparr>"

definition drawingAndPanning :: "unit state" where
  "drawingAndPanning = drawing\<lparr>isPanning := True, lastPanPoint := \<lparr>px = 10, py = 0\<rparr>\<rparr>"

text \<open>
  The text overlay: opened by a press of the text tool at time 7, with a single space
  typed, with two letters typed, and reopened on a text element of the store.
\<close>

definition textProps :: "unit props" where
  "textProps = exampleProps\<lparr>activeTool := ToolText\<rparr>"

definition typingSpace :: "unit state" where
  "typingSpace = initialState\<lparr>editingText := Some ''text-7'', textInput := '' ''\<rparr>"

definition typingHi :: "unit state" where
  "typingHi = initialState\<lparr>editingText := Some ''text-7'', textInput := ''Hi''\<rparr>"

definition oldText :: "unit canvasElement" where
  "oldText =
     \<lparr>el_id = ''text-7'', el_type = Text, el_data = TextData ''Ho'' ''#ff0000'' 2,
      el_x = 3, el_y = 4, el_width = None, el_height = None, el_selected = Some False,
      el_editing = Some True\<rparr>"

definition retypingHi :: "unit state" where
  "retypingHi =
     initialState\<lparr>elements := [strokeA, oldText], history := [[], [strokeA, oldText]],
                  historyIndex := 1, editingText := Some ''text-7'', textInput := ''Hi''\<rparr>"

text \<open>
  A log whose second snapshot holds a stroke flagged as selected, with the index on the
  first snapshot, a selection and a drag still recorded.
\<close>

definition selectedStroke :: "unit canvasElement" where
  "selectedStroke = strokeA\<lparr>el_selected := Some True\<rparr>"

definition redoable :: "unit state" where
  "redoable =
     initialState\<lparr>history := [[], [selectedStroke]], selectedElement := Some ''path-1'',
                  isDragging := True\<rparr>"

definition escapeKey :: keyEvent where
  "escapeKey = \<lparr>key = ''Escape'', shiftKey = False\<rparr>"

definition selectProps :: "unit props" where
  "selectProps = exampleProps\<lparr>activeTool := ToolSelect\<rparr>"

text \<open>
  A resize in progress. The stroke spans the box from (0, 0) to (50, 50); the press at
  (49, 49) is inside the box and within reach of the handle \<^verbatim>\<open>se\<close> at (55, 55). The text
  block has three lines, the longest of five letters, and the size 5/3, so that its
  bounds without a measuring context are the same box.
\<close>

definition strokeSelected :: "unit state" where
  "strokeSelected =
     initialState\<lparr>elements := [selectedStroke], selectedElement := Some ''path-1''\<rparr>"

definition resizingStroke :: "unit state" where
  "resizingStroke =
     strokeSelected\<lparr>isResizing := True, resizeHandle := Some ''se'',
                     dragStart := \<lparr>px = 49, py = 49\<rparr>\<rparr>"

definition textBlock :: "real \<Rightarrow> real \<Rightarrow> real \<Rightarrow> unit canvasElement" where
  "textBlock x y sz =
     \<lparr>el_id = ''text-1'', el_type = Text,
      el_data = TextData (''abcde'' @ [CHR 0x0A, CHR 0x0A]) ''#000000'' sz,
      el_x = x, el_y = y, el_width = None, el_height = None, el_selected = Some True,
      el_editing = Some False\<rparr>"

definition resizingText :: "unit state" where
  "resizingText =
     initialState\<lparr>elements := [textBlock 0 0 (5 / 3)], selectedElement := Some ''text-1'',
                  isResizing := True, resizeHandle := Some ''se'',
                  dragStart := \<lparr>px = 49, py = 49\<rparr>\<rparr>"

section \<open>History: round trip, truncation, valid index\<close>

lemma slice0_nonneg: "0 \<le> e \<Longrightarrow> slice0 xs e = take (nat e) xs"
  by (simp add: slice0_def)

lemma at_index_valid: "0 \<le> i \<Longrightarrow> i < int (length xs) \<Longrightarrow> at_index xs i = Some (xs ! nat i)"
  by (simp add: at_index_def)

lemma addToHistory_fields:
  "history (addToHistory c es s) = slice0 (history c) (historyIndex c + 1) @ [es]"
  "historyIndex (addToHistory c es s) = int (length (slice0 (history c) (historyIndex c + 1)))"
  "elements (addToHistory c es s) = elements s"
  "selectedElement (addToHistory c es s) = selectedElement s"
  by (simp_all add: addToHistory_def Let_def)

lemma validIndex_addToHistory: "validIndex (addToHistory c es s)"
  by (simp add: validIndex_def addToHistory_fields)

lemma validIndex_undo: "validIndex c \<Longrightarrow> \<exists>s. undo c = Inr s \<and> validIndex s"
  by (auto simp: undo_def validIndex_def at_index_def)

lemma validIndex_redo: "validIndex c \<Longrightarrow> \<exists>s. redo c = Inr s \<and> validIndex s"
  by (auto simp: redo_def validIndex_def at_index_def)

lemma validIndex_applyOp: "validIndex s \<Longrightarrow> \<exists>s'. applyOp s op = Inr s' \<and> validIndex s'"
proof (cases op)
  case (SetElements es)
  assume "validIndex s"
  then show ?thesis using SetElements by (simp add: validIndex_def)
next
  case (AddToHistory es)
  then show ?thesis by (simp add: validIndex_addToHistory)
next
  case (Commit es)
  then show ?thesis by (simp add: commit_def validIndex_addToHistory)
next
  case Undo
  assume "validIndex s"
  then show ?thesis using Undo by (simp add: validIndex_undo)
next
  case Redo
  assume "validIndex s"
  then show ?thesis using Redo by (simp add: validIndex_redo)
qed

lemma validIndex_run: "validIndex s \<Longrightarrow> \<exists>s'. run s ops = Inr s' \<and> validIndex s'"
proof (induction ops arbitrary: s)
  case Nil
  then show ?case by simp
next
  case (Cons op ops)
  from validIndex_applyOp [OF Cons.prems, of op]
  obtain s1 where s1: "applyOp s op = Inr s1" "validIndex s1" by blast
  from Cons.IH [OF s1(2)] show ?case using s1(1) by simp
qed

lemma validIndex_initialState: "validIndex initialState"
  by (simp add: validIndex_def initialState_def)

lemma atTail_addToHistory: "atTail (addToHistory c es s)"
  by (simp add: atTail_def addToHistory_fields)

lemma atTail_applyOp:
  assumes "atTail s" and "isEdit op" and "applyOp s op = Inr s'"
  shows "atTail s'"
proof (cases op)
  case (SetElements es)
  then show ?thesis using assms by (auto simp: atTail_def)
next
  case (AddToHistory es)
  then show ?thesis using assms(3) by (auto simp: atTail_addToHistory)
next
  case (Commit es)
  then show ?thesis using assms(3) by (auto simp: commit_def atTail_addToHistory)
next
  case Undo
  then show ?thesis using assms(2) by simp
next
  case Redo
  then show ?thesis using assms(2) by simp
qed

lemma atTail_run: "atTail s \<Longrightarrow> list_all isEdit ops \<Longrightarrow> run s ops = Inr s' \<Longrightarrow> atTail s'"
proof (induction ops arbitrary: s)
  case Nil
  then show ?case by simp
next
  case (Cons op ops)
  then show ?case
    by (auto split: sum.splits dest: atTail_applyOp)
qed

lemma atTail_initialState: "atTail initialState"
  by (simp add: atTail_def initialState_def)

lemma undo_redo_general:
  assumes v: "validIndex s"
    and snap: "at_index (history s) (historyIndex s) = Some (elements s)"
    and pos: "0 < historyIndex s \<or> historyIndex s = int (length (history s)) - 1"
  shows "\<exists>s1 s2. undo s = Inr s1 \<and> redo s1 = Inr s2 \<and> elements s2 = elements s
           \<and> history s2 = history s \<and> historyIndex s2 = historyIndex s"
proof (cases "0 < historyIndex s")
  case True
  with v have "at_index (history s) (historyIndex s - 1) = Some (history s ! nat (historyIndex s - 1))"
    by (simp add: at_index_def validIndex_def)
  then show ?thesis using True v snap
    by (simp add: undo_def redo_def validIndex_def)
next
  case False
  with pos have "historyIndex s = int (length (history s)) - 1" by simp
  then show ?thesis using False
    by (simp add: undo_def redo_def)
qed

lemma twoCommits_fields:
  "history twoCommits = [[], [strokeA], [strokeA, strokeB]]"
  "historyIndex twoCommits = 2"
  "elements twoCommits = [strokeA, strokeB]"
  "toasts twoCommits = []"
  by (simp_all add: twoCommits_def commit_def addToHistory_def initialState_def slice0_def Let_def)

lemma run_twoCommits:
  "run initialState [Commit [strokeA], Commit [strokeA, strokeB]] = Inr twoCommits"
  by (simp add: twoCommits_def)

lemma undo_twoCommits: "undo twoCommits = Inr afterUndo"
  by (simp add: undo_def twoCommits_fields at_index_def afterUndo_def)

lemma afterUndo_fields:
  "history afterUndo = [[], [strokeA], [strokeA, strokeB]]"
  "historyIndex afterUndo = 1"
  "elements afterUndo = [strokeA]"
  by (simp_all add: afterUndo_def twoCommits_fields)

text \<open>
  C1. In a state reached from the initial one by calls that set the store or add to the
  history (no undo, no redo), and whose store is the snapshot at the history index, an
  undo followed by a redo succeeds and gives back the store as it was, element for
  element and field for field, with the history log and the index as before.
\<close>

theorem undo_then_redo_restores_store:
  assumes "list_all isEdit ops"
    and "run initialState ops = Inr s"
    and "at_index (history s) (historyIndex s) = Some (elements s)"
  shows "\<exists>s1 s2. undo s = Inr s1 \<and> redo s1 = Inr s2 \<and> elements s2 = elements s
           \<and> history s2 = history s \<and> historyIndex s2 = historyIndex s"
proof -
  from validIndex_run [OF validIndex_initialState, of ops] assms(2)
  have v: "validIndex s" by auto
  from atTail_run [OF atTail_initialState assms(1) assms(2)]
  have "historyIndex s = int (length (history s)) - 1" by (simp add: atTail_def)
  with undo_redo_general [OF v assms(3)] show ?thesis by blast
qed

theorem undo_then_redo_restores_store_witness:
  "list_all isEdit [Commit [strokeA], Commit [strokeA, strokeB]]
   \<and> run initialState [Commit [strokeA], Commit [strokeA, strokeB]] = Inr twoCommits
   \<and> at_index (history twoCommits) (historyIndex twoCommits) = Some (elements twoCommits)
   \<and> undo twoCommits = Inr afterUndo
   \<and> elements afterUndo = [strokeA]
   \<and> (\<exists>s2. redo afterUndo = Inr s2 \<and> elements s2 = [strokeA, strokeB]
          \<and> history s2 = history twoCommits \<and> historyIndex s2 = 2)"
proof -
  have h1: "list_all isEdit [Commit [strokeA], Commit [strokeA, strokeB]]" by simp
  have h3: "at_index (history twoCommits) (historyIndex twoCommits) = Some (elements twoCommits)"
    by (simp add: twoCommits_fields at_index_def)
  from undo_then_redo_restores_store [OF h1 run_twoCommits h3]
  obtain s2 where "redo afterUndo = Inr s2" "elements s2 = elements twoCommits"
    "history s2 = history twoCommits" "historyIndex s2 = historyIndex twoCommits"
    by (auto simp: undo_twoCommits)
  then show ?thesis using h1 h3 run_twoCommits undo_twoCommits
    by (simp add: twoCommits_fields afterUndo_fields)
qed

text \<open>
  C2. In a state whose index is a position of the log (as after one or more undos),
  adding a snapshot keeps the snapshots up to the index, drops every snapshot after it,
  appends the new one and puts the index on it; a redo then changes nothing.
\<close>

theorem commit_truncates_redo_branch:
  assumes "validIndex c"
  shows "history (commit c es) = take (nat (historyIndex c) + 1) (history c) @ [es]
       \<and> historyIndex (commit c es) = int (length (history (commit c es))) - 1
       \<and> elements (commit c es) = es
       \<and> history (addToHistory c es s) = take (nat (historyIndex c) + 1) (history c) @ [es]
       \<and> historyIndex (addToHistory c es s) = int (length (history (addToHistory c es s))) - 1
       \<and> redo (commit c es) = Inr (commit c es)
       \<and> redo (addToHistory c es s) = Inr (addToHistory c es s)"
proof -
  from assms have e: "slice0 (history c) (historyIndex c + 1) = take (nat (historyIndex c) + 1) (history c)"
    by (simp add: slice0_def validIndex_def nat_add_distrib)
  have h: "history (addToHistory c es s') = take (nat (historyIndex c) + 1) (history c) @ [es]" for s'
    by (simp add: addToHistory_fields e)
  have i: "historyIndex (addToHistory c es s') = int (length (history (addToHistory c es s'))) - 1" for s'
    by (simp add: addToHistory_fields)
  have r: "redo (addToHistory c es s') = Inr (addToHistory c es s')" for s'
    using i [of s'] by (simp add: redo_def)
  show ?thesis
    using h i r by (simp add: commit_def addToHistory_fields)
qed

theorem commit_truncates_redo_branch_witness:
  "validIndex afterUndo
   \<and> history afterUndo = [[], [strokeA], [strokeA, strokeB]]
   \<and> historyIndex afterUndo = 1
   \<and> history (commit afterUndo [strokeB]) = [[], [strokeA], [strokeB]]
   \<and> historyIndex (commit afterUndo [strokeB]) = 2
   \<and> elements (commit afterUndo [strokeB]) = [strokeB]
   \<and> redo (commit afterUndo [strokeB]) = Inr (commit afterUndo [strokeB])"
proof -
  have v: "validIndex afterUndo"
    by (simp add: validIndex_def afterUndo_fields)
  from commit_truncates_redo_branch [OF v, of "[strokeB]" afterUndo]
  show ?thesis using v by (simp add: afterUndo_fields)
qed

text \<open>
  C3. An undo at index 0 changes nothing at all, and neither does a redo at the last
  snapshot. From the initial state (one empty snapshot, index 0) every sequence of store
  updates, commits, undos and redos runs without an exception and ends in a state whose
  index is a position of the log.
\<close>

theorem undo_redo_noop_and_index_valid:
  "(historyIndex c = 0 \<longrightarrow> undo c = Inr c)
   \<and> (historyIndex c = int (length (history c)) - 1 \<longrightarrow> redo c = Inr c)
   \<and> (\<exists>s. run initialState ops = Inr s
          \<and> 0 \<le> historyIndex s \<and> historyIndex s < int (length (history s)))"
proof -
  from validIndex_run [OF validIndex_initialState, of ops]
  have "\<exists>s. run initialState ops = Inr s
          \<and> 0 \<le> historyIndex s \<and> historyIndex s < int (length (history s))"
    by (simp add: validIndex_def)
  then show ?thesis by (simp add: undo_def redo_def)
qed

theorem undo_redo_noop_and_index_valid_witness:
  "historyIndex atStart = 0 \<and> undo atStart = Inr atStart
   \<and> historyIndex twoCommits = int (length (history twoCommits)) - 1
   \<and> redo twoCommits = Inr twoCommits
   \<and> (\<exists>s. run (initialState :: unit state) [Commit [strokeA], Undo, Undo, Redo, Redo, Redo] = Inr s
          \<and> 0 \<le> historyIndex s \<and> historyIndex s < int (length (history s)))"
proof -
  have a: "historyIndex atStart = 0" by (simp add: atStart_def)
  have b: "historyIndex twoCommits = int (length (history twoCommits)) - 1"
    by (simp add: twoCommits_fields)
  from undo_redo_noop_and_index_valid [of atStart "[Commit [strokeA], Undo, Undo, Redo, Redo, Redo]"]
    undo_redo_noop_and_index_valid [of twoCommits "[]"]
  show ?thesis using a b by blast
qed

section \<open>Zoom\<close>

text \<open>
  C9. Whatever the current zoom and the delta, the zoom after \<^verbatim>\<open>handleZoom\<close> is the sum
  of the two clamped to the interval from 0.1 to 5, with or without a center and with or
  without a canvas.
\<close>

theorem zoom_is_clamped:
  "zoom (handleZoom ev c delta zoomCenter) = max (1 / 10) (min 5 (zoom c + delta))
   \<and> 1 / 10 \<le> zoom (handleZoom ev c delta zoomCenter)
   \<and> zoom (handleZoom ev c delta zoomCenter) \<le> 5"
proof -
  have z: "zoom (handleZoom ev c delta zoomCenter) = max (1 / 10) (min 5 (zoom c + delta))"
    by (simp add: handleZoom_def Let_def split: option.splits)
  have lo: "1 / 10 \<le> max (1 / 10) (min 5 (zoom c + delta))"
    by (rule max.cobounded1)
  have hi: "max (1 / 10) (min 5 (zoom c + delta)) \<le> 5"
    by (rule max.boundedI) simp_all
  show ?thesis using lo hi unfolding z by blast
qed

text \<open>
  C5. With a canvas and a center, the world point under the center before the call is
  drawn at the center after it; without a center only the zoom changes, and the pan
  offset stays. The zoom of the component is never below 0.1, and the division by it is
  exact in this model.
\<close>

theorem zoom_keeps_point_under_center:
  assumes "canvasRect ev = Some r" and "1 / 10 \<le> zoom c"
  shows "worldToClient r (handleZoom ev c delta (Some zc)) (getMousePos ev c zc) = zc
       \<and> handleZoom ev c delta None = c\<lparr>zoom := max (1 / 10) (min 5 (zoom c + delta))\<rparr>
       \<and> panOffset (handleZoom ev c delta None) = panOffset c"
  using assms
  by (cases zc) (simp add: handleZoom_def worldToClient_def getMousePos_def Let_def)

theorem zoom_keeps_point_under_center_witness:
  "canvasRect exampleEnv = Some \<lparr>r_left = 0, r_top = 0\<rparr>
   \<and> 1 / 10 \<le> zoom (initialState :: unit state)
   \<and> getMousePos exampleEnv (initialState :: unit state) zoomCenterExample = \<lparr>px = 100, py = 80\<rparr>
   \<and> zoom (handleZoom exampleEnv (initialState :: unit state) (1 / 2) (Some zoomCenterExample)) = 3 / 2
   \<and> panOffset (handleZoom exampleEnv (initialState :: unit state) (1 / 2) (Some zoomCenterExample))
       = \<lparr>px = - 50, py = - 40\<rparr>
   \<and> worldToClient \<lparr>r_left = 0, r_top = 0\<rparr>
        (handleZoom exampleEnv (initialState :: unit state) (1 / 2) (Some zoomCenterExample))
        \<lparr>px = 100, py = 80\<rparr> = \<lparr>px = 100, py = 80\<rparr>
   \<and> panOffset (handleZoom exampleEnv (initialState :: unit state) (1 / 2) None) = origin"
proof -
  have a: "canvasRect exampleEnv = Some \<lparr>r_left = 0, r_top = 0\<rparr>" by (simp add: exampleEnv_def)
  have b: "1 / 10 \<le> zoom (initialState :: unit state)" by (simp add: initialState_def)
  have g: "getMousePos exampleEnv (initialState :: unit state) zoomCenterExample = \<lparr>px = 100, py = 80\<rparr>"
    by (simp add: getMousePos_def exampleEnv_def initialState_def zoomCenterExample_def origin_def)
  have z: "zoom (handleZoom exampleEnv (initialState :: unit state) (1 / 2) (Some zoomCenterExample)) = 3 / 2"
    by (simp add: handleZoom_def exampleEnv_def initialState_def zoomCenterExample_def Let_def)
  have p: "panOffset (handleZoom exampleEnv (initialState :: unit state) (1 / 2) (Some zoomCenterExample))
       = \<lparr>px = - 50, py = - 40\<rparr>"
    by (simp add: handleZoom_def exampleEnv_def initialState_def zoomCenterExample_def Let_def origin_def)
  have o: "panOffset (initialState :: unit state) = origin" by (simp add: initialState_def)
  from zoom_keeps_point_under_center [OF a b, of "1 / 2" zoomCenterExample]
  show ?thesis using a b g z p o by (simp add: zoomCenterExample_def)
qed

section \<open>Hit-testing\<close>

lemma find_app:
  "find P (xs @ ys) = (case find P xs of None \<Rightarrow> find P ys | Some x \<Rightarrow> Some x)"
  by (induction xs) simp_all

lemma scanDown_find:
  assumes "\<forall>el \<in> set es. getElementBounds ctx el \<noteq> Inl TypeError"
    and "n \<le> length es"
  shows "scanDown ctx es pos n = Inr (find (hits ctx pos) (rev (take n es)))"
  using assms(2)
proof (induction n)
  case 0
  then show ?case by simp
next
  case (Suc i)
  then have i: "i < length es" by simp
  then have ne: "getElementBounds ctx (es ! i) \<noteq> Inl TypeError"
    using assms(1) by simp
  have r: "rev (take (Suc i) es) = es ! i # rev (take i es)"
    using i by (simp add: take_Suc_conv_app_nth)
  from Suc have ih: "scanDown ctx es pos i = Inr (find (hits ctx pos) (rev (take i es)))"
    by simp
  show ?case
  proof (cases "getElementBounds ctx (es ! i)")
    case (Inl err)
    with ne have e: "getElementBounds ctx (es ! i) = Inl NonFinite" by (cases err) auto
    then have "\<not> hits ctx pos (es ! i)" by (simp add: hits_def)
    with e show ?thesis by (simp add: r ih)
  next
    case (Inr b)
    then have "hits ctx pos (es ! i) = inBox pos b" by (simp add: hits_def)
    with Inr show ?thesis by (simp add: r ih)
  qed
qed

lemma strokeA_bounds:
  "getElementBounds None strokeA = Inr \<lparr>b_x = 0, b_y = 0, b_width = 50, b_height = 50\<rparr>"
  by (simp add: getElementBounds_def strokeA_def stroke_def Let_def)

lemma strokeB_bounds:
  "getElementBounds None strokeB = Inr \<lparr>b_x = 25, b_y = 25, b_width = 50, b_height = 50\<rparr>"
  by (simp add: getElementBounds_def strokeB_def stroke_def Let_def)

text \<open>
  C6. Where no element throws (no text element carries a stroke payload, which the
  component never builds), \<^verbatim>\<open>getElementAtPosition\<close> is the hit test of the
  specification: the first element, from the last inserted down, whose bounds contain
  the point, and none exactly when no bounds contain it. So the last element wins when
  it is hit, and in general the hit element with no hit element above it.
\<close>

theorem hit_test_returns_topmost:
  assumes "\<forall>el \<in> set es. getElementBounds ctx el \<noteq> Inl TypeError"
  shows "getElementAtPosition ctx es pos = Inr (hitTestSpec ctx es pos)
       \<and> (getElementAtPosition ctx es pos = Inr None \<longleftrightarrow> (\<forall>el \<in> set es. \<not> hits ctx pos el))
       \<and> (es \<noteq> [] \<and> hits ctx pos (last es) \<longrightarrow>
            getElementAtPosition ctx es pos = Inr (Some (last es)))
       \<and> (\<forall>i < length es. hits ctx pos (es ! i) \<and> (\<forall>j < length es. i < j \<longrightarrow> \<not> hits ctx pos (es ! j)) \<longrightarrow>
            getElementAtPosition ctx es pos = Inr (Some (es ! i)))"
proof -
  have eq: "getElementAtPosition ctx es pos = Inr (find (hits ctx pos) (rev es))"
    using scanDown_find [OF assms, of "length es" pos]
    by (simp add: getElementAtPosition_def)
  have none: "find (hits ctx pos) (rev es) = None \<longleftrightarrow> (\<forall>el \<in> set es. \<not> hits ctx pos el)"
    by (auto simp: find_None_iff)
  have lst: "es \<noteq> [] \<Longrightarrow> hits ctx pos (last es) \<Longrightarrow> find (hits ctx pos) (rev es) = Some (last es)"
    by (cases es rule: rev_cases) simp_all
  have top: "find (hits ctx pos) (rev es) = Some (es ! i)"
    if i: "i < length es" and h: "hits ctx pos (es ! i)"
      and above: "\<forall>j < length es. i < j \<longrightarrow> \<not> hits ctx pos (es ! j)" for i
  proof -
    have es: "es = take i es @ es ! i # drop (Suc i) es"
      using i by (simp add: id_take_nth_drop)
    have "\<forall>x \<in> set (drop (Suc i) es). \<not> hits ctx pos x"
    proof
      fix x assume "x \<in> set (drop (Suc i) es)"
      then obtain k where k: "k < length (drop (Suc i) es)" "x = drop (Suc i) es ! k"
        by (auto simp: in_set_conv_nth)
      then have "x = es ! (Suc i + k)" "Suc i + k < length es" by auto
      with above show "\<not> hits ctx pos x" by simp
    qed
    then have d: "find (hits ctx pos) (rev (drop (Suc i) es)) = None"
      by (simp add: find_None_iff)
    have "rev es = rev (drop (Suc i) es) @ es ! i # rev (take i es)"
      by (subst es) simp
    then show ?thesis using d h by (simp add: find_app)
  qed
  show ?thesis
    using eq none lst top by (simp add: hitTestSpec_def)
qed

theorem hit_test_returns_topmost_witness:
  "getElementBounds None strokeA = Inr \<lparr>b_x = 0, b_y = 0, b_width = 50, b_height = 50\<rparr>
   \<and> getElementBounds None strokeB = Inr \<lparr>b_x = 25, b_y = 25, b_width = 50, b_height = 50\<rparr>
   \<and> hits None \<lparr>px = 30, py = 30\<rparr> strokeA \<and> hits None \<lparr>px = 30, py = 30\<rparr> strokeB
   \<and> getElementAtPosition None [strokeA, strokeB] \<lparr>px = 30, py = 30\<rparr> = Inr (Some strokeB)
   \<and> getElementAtPosition None [strokeB, strokeA] \<lparr>px = 30, py = 30\<rparr> = Inr (Some strokeA)
   \<and> getElementAtPosition None [strokeA, strokeB] \<lparr>px = 10, py = 10\<rparr> = Inr (Some strokeA)
   \<and> getElementAtPosition None [strokeA, strokeB] \<lparr>px = 90, py = 10\<rparr> = Inr None"
proof -
  have a: "\<forall>el \<in> set [strokeA, strokeB]. getElementBounds None el \<noteq> Inl TypeError"
    by (simp add: strokeA_bounds strokeB_bounds)
  have b: "\<forall>el \<in> set [strokeB, strokeA]. getElementBounds None el \<noteq> Inl TypeError"
    by (simp add: strokeA_bounds strokeB_bounds)
  from hit_test_returns_topmost [OF a, of "\<lparr>px = 30, py = 30\<rparr>"]
    hit_test_returns_topmost [OF b, of "\<lparr>px = 30, py = 30\<rparr>"]
    hit_test_returns_topmost [OF a, of "\<lparr>px = 10, py = 10\<rparr>"]
    hit_test_returns_topmost [OF a, of "\<lparr>px = 90, py = 10\<rparr>"]
  show ?thesis using a
    by (simp add: hitTestSpec_def hits_def strokeA_bounds strokeB_bounds inBox_def)
qed

section \<open>Pencil release\<close>

lemma getMousePos_example:
  "zoom c = 1 \<Longrightarrow> panOffset c = origin \<Longrightarrow>
   getMousePos exampleEnv c (clientOf (mouseAt x y b)) = \<lparr>px = x, py = y\<rparr>"
  by (simp add: getMousePos_def exampleEnv_def clientOf_def mouseAt_def origin_def)

lemma press_starts_stroke:
  "handleMouseDown exampleProps exampleEnv initialState (mouseAt 0 0 0)
     = Inr (initialState\<lparr>isDrawing := True, currentPath := [\<lparr>px = 0, py = 0\<rparr>]\<rparr>)"
proof -
  have "getMousePos exampleEnv (initialState :: unit state) (clientOf (mouseAt 0 0 0)) = \<lparr>px = 0, py = 0\<rparr>"
    by (rule getMousePos_example) (simp_all add: initialState_def)
  then show ?thesis
    by (simp add: handleMouseDown_def Let_def exampleProps_def mouseAt_def)
qed

lemma pencil_move_appends:
  assumes "isDrawing c" "\<not> isPanning c" "zoom c = 1" "panOffset c = origin"
    "resizeHandle c = None" "\<not> isDragging c" "er_visible (eraserPosition c) = False"
  shows "handleMouseMove exampleProps exampleEnv c (mouseAt x y 0)
     = Inr (c\<lparr>currentPath := currentPath c @ [\<lparr>px = x, py = y\<rparr>]\<rparr>)"
proof -
  have p: "getMousePos exampleEnv c (clientOf (mouseAt x y 0)) = \<lparr>px = x, py = y\<rparr>"
    using assms(3,4) by (rule getMousePos_example)
  have e: "c\<lparr>eraserPosition := (eraserPosition c)\<lparr>er_visible := False\<rparr>\<rparr> = c"
    using assms(7) by simp
  have t: "activeTool exampleProps = ToolPencil" "canvasRect exampleEnv \<noteq> None"
    by (simp_all add: exampleProps_def exampleEnv_def)
  show ?thesis
    using assms(1,2,5,6) t
    by (simp add: handleMouseMove_def Let_def p e hoverStep_def dragStep_def resizeStep_def)
qed

lemma stroke_reaches_drawing:
  "handleMouseDown exampleProps exampleEnv initialState (mouseAt 0 0 0)
     = Inr (initialState\<lparr>isDrawing := True, currentPath := [\<lparr>px = 0, py = 0\<rparr>]\<rparr>)"
  "handleMouseMove exampleProps exampleEnv
     (initialState\<lparr>isDrawing := True, currentPath := [\<lparr>px = 0, py = 0\<rparr>]\<rparr>) (mouseAt 5 5 0)
     = Inr (initialState\<lparr>isDrawing := True,
              currentPath := [\<lparr>px = 0, py = 0\<rparr>, \<lparr>px = 5, py = 5\<rparr>]\<rparr>)"
  "handleMouseMove exampleProps exampleEnv
     (initialState\<lparr>isDrawing := True,
        currentPath := [\<lparr>px = 0, py = 0\<rparr>, \<lparr>px = 5, py = 5\<rparr>]\<rparr>) (mouseAt 10 0 0)
     = Inr drawing"
  "handleMouseDown exampleProps exampleEnv drawing (mouseAt 10 0 1) = Inr drawingAndPanning"
proof -
  show "handleMouseDown exampleProps exampleEnv initialState (mouseAt 0 0 0)
     = Inr (initialState\<lparr>isDrawing := True, currentPath := [\<lparr>px = 0, py = 0\<rparr>]\<rparr>)"
    by (rule press_starts_stroke)
  show "handleMouseMove exampleProps exampleEnv
     (initialState\<lparr>isDrawing := True, currentPath := [\<lparr>px = 0, py = 0\<rparr>]\<rparr>) (mouseAt 5 5 0)
     = Inr (initialState\<lparr>isDrawing := True,
              currentPath := [\<lparr>px = 0, py = 0\<rparr>, \<lparr>px = 5, py = 5\<rparr>]\<rparr>)"
    by (subst pencil_move_appends) (simp_all add: initialState_def)
  show "handleMouseMove exampleProps exampleEnv
     (initialState\<lparr>isDrawing := True,
        currentPath := [\<lparr>px = 0, py = 0\<rparr>, \<lparr>px = 5, py = 5\<rparr>]\<rparr>) (mouseAt 10 0 0)
     = Inr drawing"
    by (subst pencil_move_appends) (simp_all add: initialState_def drawing_def threePoints_def)
  show "handleMouseDown exampleProps exampleEnv drawing (mouseAt 10 0 1) = Inr drawingAndPanning"
    by (simp add: handleMouseDown_def Let_def mouseAt_def drawingAndPanning_def clientOf_def)
qed

text \<open>
  C8, as stated, fails: a stroke in progress with three points, and a pan started by the
  middle button before the release. The release ends the pan and returns; the store, the
  history and the points stay as they were.
\<close>

theorem pencil_release_while_panning_counterexample:
  "handleMouseDown exampleProps exampleEnv drawing (mouseAt 10 0 1) = Inr drawingAndPanning
   \<and> isDrawing drawingAndPanning
   \<and> activeTool exampleProps = ToolPencil
   \<and> currentPath drawingAndPanning = threePoints
   \<and> handleMouseUp exampleProps exampleEnv drawingAndPanning = drawingAndPanning\<lparr>isPanning := False\<rparr>
   \<and> elements (handleMouseUp exampleProps exampleEnv drawingAndPanning) = []
   \<and> history (handleMouseUp exampleProps exampleEnv drawingAndPanning) = [[]]
   \<and> currentPath (handleMouseUp exampleProps exampleEnv drawingAndPanning) = threePoints"
proof -
  have u: "handleMouseUp exampleProps exampleEnv drawingAndPanning = drawingAndPanning\<lparr>isPanning := False\<rparr>"
    by (simp add: handleMouseUp_def drawingAndPanning_def)
  show ?thesis
    unfolding u using stroke_reaches_drawing(4)
    by (simp add: drawingAndPanning_def drawing_def initialState_def exampleProps_def)
qed

lemma pencil_release_commits:
  assumes "isDrawing c" and "activeTool props = ToolPencil" and "currentPath c \<noteq> []"
    and "\<not> isPanning c" and "validIndex c"
  shows "elements (handleMouseUp props ev c) = elements c @ [newPathElement props ev (currentPath c)]
       \<and> el_type (newPathElement props ev (currentPath c)) = Path
       \<and> el_data (newPathElement props ev (currentPath c))
           = PathData (currentPath c) (ds_color (drawingSettings props))
               (ds_size (drawingSettings props)) (ds_pressure (drawingSettings props))
       \<and> history (handleMouseUp props ev c)
           = take (nat (historyIndex c) + 1) (history c)
               @ [elements c @ [newPathElement props ev (currentPath c)]]
       \<and> length (history (handleMouseUp props ev c)) = nat (historyIndex c) + 2
       \<and> historyIndex (handleMouseUp props ev c) = historyIndex c + 1
       \<and> currentPath (handleMouseUp props ev c) = []
       \<and> isDrawing (handleMouseUp props ev c) = False"
proof -
  let ?new = "elements c @ [newPathElement props ev (currentPath c)]"
  have up: "handleMouseUp props ev c =
      (addToHistory c ?new
         ((if isDragging c \<or> isResizing c then
             addToHistory c (elements c)
               (c\<lparr>isDragging := False, isResizing := False, resizeHandle := None\<rparr>)
           else c)\<lparr>elements := ?new\<rparr>))\<lparr>currentPath := [], isDrawing := False\<rparr>"
    using assms(1-4) by (simp add: handleMouseUp_def Let_def)
  from assms(5) have sl: "slice0 (history c) (historyIndex c + 1) = take (nat (historyIndex c) + 1) (history c)"
    by (simp add: slice0_def validIndex_def nat_add_distrib)
  from assms(5) have len: "length (take (nat (historyIndex c) + 1) (history c)) = nat (historyIndex c) + 1"
    by (auto simp: validIndex_def)
  have h: "history (handleMouseUp props ev c) = take (nat (historyIndex c) + 1) (history c) @ [?new]"
    unfolding up by (simp add: addToHistory_fields sl)
  have i: "historyIndex (handleMouseUp props ev c) = historyIndex c + 1"
  proof -
    have "historyIndex (handleMouseUp props ev c)
        = int (length (take (nat (historyIndex c) + 1) (history c)))"
      unfolding up by (simp add: addToHistory_fields sl del: length_take)
    also have "\<dots> = int (nat (historyIndex c) + 1)"
      by (simp only: len)
    also have "\<dots> = historyIndex c + 1"
      using assms(5) by (simp add: validIndex_def)
    finally show ?thesis .
  qed
  have e: "elements (handleMouseUp props ev c) = ?new"
    unfolding up by (simp add: addToHistory_def Let_def)
  have p: "currentPath (handleMouseUp props ev c) = []" "isDrawing (handleMouseUp props ev c) = False"
    unfolding up by simp_all
  have l: "length (history (handleMouseUp props ev c)) = nat (historyIndex c) + 2"
    unfolding h using len by simp
  show ?thesis
    using h i e p l by (simp add: newPathElement_def)
qed

lemma release_while_panning:
  assumes "isPanning c"
  shows "handleMouseUp props ev c = c\<lparr>isPanning := False\<rparr>"
  using assms by (simp add: handleMouseUp_def)

text \<open>
  C8, amended. With the pencil active, a stroke in progress with at least one point and no
  pan in progress, the release appends one new path element, built from the points and
  the drawing settings, after the elements of the store, which stay as they were and in
  order; the history keeps the snapshots up to the index and gets the new store as its
  one new entry, with the index on it; the points are cleared and drawing ends. While a
  pan is in progress, whatever else is in progress, the release only ends the pan: the
  store, the history, the index, the points and the drawing flag stay as they were.
\<close>

theorem pencil_release_appends_one_path:
  "(isDrawing c \<and> activeTool props = ToolPencil \<and> currentPath c \<noteq> [] \<and> \<not> isPanning c
      \<and> validIndex c \<longrightarrow>
      elements (handleMouseUp props ev c) = elements c @ [newPathElement props ev (currentPath c)]
      \<and> el_type (newPathElement props ev (currentPath c)) = Path
      \<and> el_data (newPathElement props ev (currentPath c))
          = PathData (currentPath c) (ds_color (drawingSettings props))
              (ds_size (drawingSettings props)) (ds_pressure (drawingSettings props))
      \<and> history (handleMouseUp props ev c)
          = take (nat (historyIndex c) + 1) (history c)
              @ [elements c @ [newPathElement props ev (currentPath c)]]
      \<and> length (history (handleMouseUp props ev c)) = nat (historyIndex c) + 2
      \<and> historyIndex (handleMouseUp props ev c) = historyIndex c + 1
      \<and> currentPath (handleMouseUp props ev c) = []
      \<and> isDrawing (handleMouseUp props ev c) = False)
   \<and> (isPanning c \<longrightarrow>
      handleMouseUp props ev c = c\<lparr>isPanning := False\<rparr>
      \<and> elements (handleMouseUp props ev c) = elements c
      \<and> history (handleMouseUp props ev c) = history c
      \<and> historyIndex (handleMouseUp props ev c) = historyIndex c
      \<and> currentPath (handleMouseUp props ev c) = currentPath c
      \<and> isDrawing (handleMouseUp props ev c) = isDrawing c
      \<and> isPanning (handleMouseUp props ev c) = False)"
proof (intro conjI impI)
  assume a: "isDrawing c \<and> activeTool props = ToolPencil \<and> currentPath c \<noteq> [] \<and> \<not> isPanning c
      \<and> validIndex c"
  then have "isDrawing c" "activeTool props = ToolPencil" "currentPath c \<noteq> []" "\<not> isPanning c"
    "validIndex c"
    by simp_all
  note r = pencil_release_commits [OF this, of ev]
  from r show "elements (handleMouseUp props ev c) = elements c @ [newPathElement props ev (currentPath c)]"
    by (rule conjunct1)
  from r show "el_type (newPathElement props ev (currentPath c)) = Path"
    by blast
  from r show "el_data (newPathElement props ev (currentPath c))
          = PathData (currentPath c) (ds_color (drawingSettings props))
              (ds_size (drawingSettings props)) (ds_pressure (drawingSettings props))"
    by blast
  from r show "history (handleMouseUp props ev c)
          = take (nat (historyIndex c) + 1) (history c)
              @ [elements c @ [newPathElement props ev (currentPath c)]]"
    by blast
  from r show "length (history (handleMouseUp props ev c)) = nat (historyIndex c) + 2"
    by blast
  from r show "historyIndex (handleMouseUp props ev c) = historyIndex c + 1"
    by blast
  from r show "currentPath (handleMouseUp props ev c) = []"
    by blast
  from r show "isDrawing (handleMouseUp props ev c) = False"
    by blast
next
  assume "isPanning c"
  then show u: "handleMouseUp props ev c = c\<lparr>isPanning := False\<rparr>"
    by (rule release_while_panning)
  show "elements (handleMouseUp props ev c) = elements c"
    "history (handleMouseUp props ev c) = history c"
    "historyIndex (handleMouseUp props ev c) = historyIndex c"
    "currentPath (handleMouseUp props ev c) = currentPath c"
    "isDrawing (handleMouseUp props ev c) = isDrawing c"
    "isPanning (handleMouseUp props ev c) = False"
    unfolding u by simp_all
qed

theorem pencil_release_appends_one_path_witness:
  "isDrawing drawing \<and> activeTool exampleProps = ToolPencil \<and> currentPath drawing = threePoints
   \<and> threePoints \<noteq> [] \<and> \<not> isPanning drawing \<and> validIndex drawing
   \<and> elements (handleMouseUp exampleProps exampleEnv drawing)
       = [newPathElement exampleProps exampleEnv threePoints]
   \<and> el_data (newPathElement exampleProps exampleEnv threePoints) = PathData threePoints ''#000000'' 4 ()
   \<and> history (handleMouseUp exampleProps exampleEnv drawing)
       = [[], [newPathElement exampleProps exampleEnv threePoints]]
   \<and> historyIndex (handleMouseUp exampleProps exampleEnv drawing) = 1
   \<and> currentPath (handleMouseUp exampleProps exampleEnv drawing) = []
   \<and> isPanning drawingAndPanning
   \<and> handleMouseUp exampleProps exampleEnv drawingAndPanning = drawingAndPanning\<lparr>isPanning := False\<rparr>
   \<and> elements (handleMouseUp exampleProps exampleEnv drawingAndPanning) = []
   \<and> history (handleMouseUp exampleProps exampleEnv drawingAndPanning) = [[]]
   \<and> currentPath (handleMouseUp exampleProps exampleEnv drawingAndPanning) = threePoints
   \<and> isPanning (handleMouseUp exampleProps exampleEnv drawingAndPanning) = False"
proof -
  have a: "isDrawing drawing \<and> activeTool exampleProps = ToolPencil \<and> currentPath drawing \<noteq> []
      \<and> \<not> isPanning drawing \<and> validIndex drawing"
    by (simp add: drawing_def initialState_def exampleProps_def threePoints_def validIndex_def)
  have f: "currentPath drawing = threePoints" "elements drawing = []" "history drawing = [[]]"
    "historyIndex drawing = 0" "threePoints \<noteq> []"
    by (simp_all add: drawing_def initialState_def threePoints_def)
  have d: "ds_color (drawingSettings exampleProps) = ''#000000''"
    "ds_size (drawingSettings exampleProps) = 4" "ds_pressure (drawingSettings exampleProps) = ()"
    by (simp_all add: exampleProps_def)
  have p: "isPanning drawingAndPanning" by (simp add: drawingAndPanning_def)
  have g: "currentPath drawingAndPanning = threePoints" "elements drawingAndPanning = []"
    "history drawingAndPanning = [[]]"
    by (simp_all add: drawingAndPanning_def f)
  note R = pencil_release_appends_one_path [of drawing exampleProps exampleEnv,
      THEN conjunct1, THEN mp, OF a]
  note P = pencil_release_appends_one_path [of drawingAndPanning exampleProps exampleEnv,
      THEN conjunct2, THEN mp, OF p]
  have r: "elements (handleMouseUp exampleProps exampleEnv drawing)
       = [newPathElement exampleProps exampleEnv threePoints]"
    "el_data (newPathElement exampleProps exampleEnv threePoints) = PathData threePoints ''#000000'' 4 ()"
    "history (handleMouseUp exampleProps exampleEnv drawing)
       = [[], [newPathElement exampleProps exampleEnv threePoints]]"
    "historyIndex (handleMouseUp exampleProps exampleEnv drawing) = 1"
    "currentPath (handleMouseUp exampleProps exampleEnv drawing) = []"
    using R by (simp_all add: f d)
  have q: "handleMouseUp exampleProps exampleEnv drawingAndPanning = drawingAndPanning\<lparr>isPanning := False\<rparr>"
    "elements (handleMouseUp exampleProps exampleEnv drawingAndPanning) = []"
    "history (handleMouseUp exampleProps exampleEnv drawingAndPanning) = [[]]"
    "currentPath (handleMouseUp exampleProps exampleEnv drawingAndPanning) = threePoints"
    "isPanning (handleMouseUp exampleProps exampleEnv drawingAndPanning) = False"
    using P by (simp_all add: g)
  show ?thesis
    using a p r q by (simp add: f)
qed

section \<open>Text overlay\<close>

lemma findIndexFrom_result:
  "(findIndexFrom P xs k = - 1 \<and> (\<forall>x \<in> set xs. \<not> P x))
   \<or> (\<exists>n < length xs. findIndexFrom P xs k = k + int n \<and> P (xs ! n))"
proof (induction xs arbitrary: k)
  case Nil
  then show ?case by simp
next
  case (Cons x xs)
  show ?case
  proof (cases "P x")
    case True
    then show ?thesis by auto
  next
    case False
    from Cons [of "k + 1"] show ?thesis
    proof
      assume "findIndexFrom P xs (k + 1) = - 1 \<and> (\<forall>x \<in> set xs. \<not> P x)"
      with False show ?thesis by simp
    next
      assume "\<exists>n < length xs. findIndexFrom P xs (k + 1) = k + 1 + int n \<and> P (xs ! n)"
      then obtain n where n: "n < length xs" "findIndexFrom P xs (k + 1) = k + 1 + int n" "P (xs ! n)"
        by blast
      have "Suc n < length (x # xs) \<and> findIndexFrom P (x # xs) k = k + int (Suc n) \<and> P ((x # xs) ! Suc n)"
        using n False by simp
      then show ?thesis by blast
    qed
  qed
qed

lemma findIndex_negative:
  "findIndex P xs < 0 \<Longrightarrow> \<forall>x \<in> set xs. \<not> P x"
  using findIndexFrom_result [of P xs 0] by (auto simp: findIndex_def)

lemma findIndex_found:
  "0 \<le> findIndex P xs \<Longrightarrow> nat (findIndex P xs) < length xs \<and> P (xs ! nat (findIndex P xs))"
  using findIndexFrom_result [of P xs 0] by (auto simp: findIndex_def)

lemma commit_fields:
  assumes "validIndex c"
  shows "history (commit c es) = take (nat (historyIndex c) + 1) (history c) @ [es]"
    and "historyIndex (commit c es) = historyIndex c + 1"
    and "elements (commit c es) = es"
proof -
  from assms have sl: "slice0 (history c) (historyIndex c + 1) = take (nat (historyIndex c) + 1) (history c)"
    by (simp add: slice0_def validIndex_def nat_add_distrib)
  from assms have len: "length (take (nat (historyIndex c) + 1) (history c)) = nat (historyIndex c) + 1"
    by (auto simp: validIndex_def)
  show "history (commit c es) = take (nat (historyIndex c) + 1) (history c) @ [es]"
    by (simp add: commit_def addToHistory_fields sl)
  have "historyIndex (commit c es) = int (length (take (nat (historyIndex c) + 1) (history c)))"
    by (simp add: commit_def addToHistory_fields sl del: length_take)
  also have "\<dots> = int (nat (historyIndex c) + 1)" by (simp only: len)
  also have "\<dots> = historyIndex c + 1" using assms by (simp add: validIndex_def)
  finally show "historyIndex (commit c es) = historyIndex c + 1" .
  show "elements (commit c es) = es"
    by (simp add: commit_def addToHistory_fields)
qed

lemma blur_submits:
  assumes "editingText c = Some ident" and "ident \<noteq> []" and "trim (textInput c) \<noteq> []"
  shows "handleTextAreaBlur props c =
      (commit c
         (if findIndex (\<lambda>el. el_id el = ident) (elements c) \<ge> 0 then
            (elements c)
              [nat (findIndex (\<lambda>el. el_id el = ident) (elements c)) :=
                 (elements c ! nat (findIndex (\<lambda>el. el_id el = ident) (elements c)))
                   \<lparr>el_data := TextData (textInput c) (ds_color (drawingSettings props))
                                (ds_size (drawingSettings props)),
                    el_editing := Some False\<rparr>]
          else elements c @ [newTextElement props c ident]))
        \<lparr>editingText := None, textInput := [], toasts := toasts c @ [''Text saved!'']\<rparr>"
  using assms by (simp add: handleTextAreaBlur_def handleTextSubmit_def Let_def)

lemma mouseAt_fields:
  "button (mouseAt x y b) = b" "ctrlKey (mouseAt x y b) = False"
  "clientX (mouseAt x y b) = x" "clientY (mouseAt x y b) = y"
  by (simp_all add: mouseAt_def)

lemma text_press_then_space:
  "handleMouseDown textProps exampleEnv initialState (mouseAt 0 0 0)
     = Inr (initialState\<lparr>editingText := Some ''text-7''\<rparr>)"
  "handleTextInputChange (initialState\<lparr>editingText := Some ''text-7''\<rparr>) '' '' = typingSpace"
proof -
  have p: "getMousePos exampleEnv (initialState :: unit state) (clientOf (mouseAt 0 0 0)) = \<lparr>px = 0, py = 0\<rparr>"
    by (rule getMousePos_example) (simp_all add: initialState_def)
  have n: "showNat (now exampleEnv) = ''7''"
    by (simp add: exampleEnv_def showNat.simps)
  have i: "textPosition (initialState :: unit state) = \<lparr>px = 0, py = 0\<rparr>" "textInput (initialState :: unit state) = []"
    by (simp_all add: initialState_def origin_def)
  have "handleMouseDown textProps exampleEnv (initialState :: unit state) (mouseAt 0 0 0)
     = Inr (initialState\<lparr>editingText := Some ''text-7'', textPosition := \<lparr>px = 0, py = 0\<rparr>, textInput := []\<rparr>)"
    by (simp add: handleMouseDown_def Let_def p n textProps_def exampleProps_def mouseAt_fields)
  also have "(initialState :: unit state)\<lparr>editingText := Some ''text-7'', textPosition := \<lparr>px = 0, py = 0\<rparr>, textInput := []\<rparr>
      = initialState\<lparr>editingText := Some ''text-7''\<rparr>"
    by (simp add: initialState_def origin_def)
  finally show "handleMouseDown textProps exampleEnv initialState (mouseAt 0 0 0)
     = Inr (initialState\<lparr>editingText := Some ''text-7''\<rparr>)" .
  show "handleTextInputChange (initialState\<lparr>editingText := Some ''text-7''\<rparr>) '' '' = typingSpace"
    by (simp add: typingSpace_def handleTextInputChange_def)
qed

lemma trim_white_space:
  "trim [CHR 0x20] = []" "trim [CHR 0xA0] = []" "trim [CHR 0x09, CHR 0x0A, CHR 0x0D] = []"
  "trim ([CHR 0xA0] @ ''Hi'' @ [CHR 0x20]) = ''Hi''"
  by (simp_all add: trim_def isWhiteSpace_def)

lemma blur_with_no_break_space:
  "handleTextAreaBlur props (c\<lparr>textInput := [CHR 0xA0]\<rparr>)
     = c\<lparr>textInput := [], editingText := None\<rparr>"
  by (simp add: handleTextAreaBlur_def trim_white_space)

text \<open>
  C7, as stated, fails: with the overlay open and a single space typed the content is
  not empty, and yet losing focus creates no element and adds nothing to the history.
\<close>

theorem blur_with_blank_content_counterexample:
  "truthy (editingText typingSpace)
   \<and> textInput typingSpace = '' '' \<and> textInput typingSpace \<noteq> []
   \<and> handleTextAreaBlur textProps typingSpace = typingSpace\<lparr>editingText := None, textInput := []\<rparr>
   \<and> elements (handleTextAreaBlur textProps typingSpace) = []
   \<and> history (handleTextAreaBlur textProps typingSpace) = [[]]
   \<and> historyIndex (handleTextAreaBlur textProps typingSpace) = 0"
proof -
  have t: "trim (textInput typingSpace) = []"
    by (simp add: typingSpace_def trim_def isWhiteSpace_def)
  have b: "handleTextAreaBlur textProps typingSpace = typingSpace\<lparr>editingText := None, textInput := []\<rparr>"
    by (simp add: handleTextAreaBlur_def t)
  show ?thesis unfolding b
    by (simp add: typingSpace_def initialState_def)
qed

text \<open>
  C7, amended. While the overlay is open: Escape clears the overlay and changes nothing
  else, so the store and the history stay. Losing focus with content that is empty once
  its white space is trimmed does the same. Losing focus with content that is not empty
  once trimmed commits: when no element has the edited id, one new text element with the
  typed content, the current color and size and the overlay's position is appended;
  when an element has it, the first such element gets the typed content and the current
  color and size in place; either way the history keeps the snapshots up to the index
  and gets the new store as its one new entry, and the overlay closes.
\<close>

theorem text_overlay_escape_and_blur:
  "(key e = ''Escape'' \<longrightarrow>
      handleKeyDown props c e = c\<lparr>editingText := None, textInput := []\<rparr>
      \<and> elements (handleKeyDown props c e) = elements c
      \<and> history (handleKeyDown props c e) = history c
      \<and> historyIndex (handleKeyDown props c e) = historyIndex c)
   \<and> (trim (textInput c) = [] \<longrightarrow>
      handleTextAreaBlur props c = c\<lparr>editingText := None, textInput := []\<rparr>
      \<and> elements (handleTextAreaBlur props c) = elements c
      \<and> history (handleTextAreaBlur props c) = history c
      \<and> historyIndex (handleTextAreaBlur props c) = historyIndex c)
   \<and> (editingText c = Some ident \<and> ident \<noteq> [] \<and> trim (textInput c) \<noteq> [] \<and> validIndex c \<longrightarrow>
      (findIndex (\<lambda>el. el_id el = ident) (elements c) < 0 \<longrightarrow>
         (\<forall>el \<in> set (elements c). el_id el \<noteq> ident)
         \<and> elements (handleTextAreaBlur props c) = elements c @ [newTextElement props c ident])
      \<and> (0 \<le> findIndex (\<lambda>el. el_id el = ident) (elements c) \<longrightarrow>
         nat (findIndex (\<lambda>el. el_id el = ident) (elements c)) < length (elements c)
         \<and> el_id (elements c ! nat (findIndex (\<lambda>el. el_id el = ident) (elements c))) = ident
         \<and> elements (handleTextAreaBlur props c) =
             (elements c)
               [nat (findIndex (\<lambda>el. el_id el = ident) (elements c)) :=
                  (elements c ! nat (findIndex (\<lambda>el. el_id el = ident) (elements c)))
                    \<lparr>el_data := TextData (textInput c) (ds_color (drawingSettings props))
                                 (ds_size (drawingSettings props)),
                     el_editing := Some False\<rparr>])
      \<and> el_type (newTextElement props c ident) = Text
      \<and> el_data (newTextElement props c ident)
          = TextData (textInput c) (ds_color (drawingSettings props)) (ds_size (drawingSettings props))
      \<and> history (handleTextAreaBlur props c)
          = take (nat (historyIndex c) + 1) (history c) @ [elements (handleTextAreaBlur props c)]
      \<and> historyIndex (handleTextAreaBlur props c) = historyIndex c + 1
      \<and> editingText (handleTextAreaBlur props c) = None
      \<and> textInput (handleTextAreaBlur props c) = [])"
proof (intro conjI impI)
  assume "key e = ''Escape''"
  then show k: "handleKeyDown props c e = c\<lparr>editingText := None, textInput := []\<rparr>"
    by (simp add: handleKeyDown_def)
  show "elements (handleKeyDown props c e) = elements c"
    "history (handleKeyDown props c e) = history c"
    "historyIndex (handleKeyDown props c e) = historyIndex c"
    unfolding k by simp_all
next
  assume "trim (textInput c) = []"
  then show b: "handleTextAreaBlur props c = c\<lparr>editingText := None, textInput := []\<rparr>"
    by (simp add: handleTextAreaBlur_def)
  show "elements (handleTextAreaBlur props c) = elements c"
    "history (handleTextAreaBlur props c) = history c"
    "historyIndex (handleTextAreaBlur props c) = historyIndex c"
    unfolding b by simp_all
next
  assume a: "editingText c = Some ident \<and> ident \<noteq> [] \<and> trim (textInput c) \<noteq> [] \<and> validIndex c"
  then have v: "validIndex c" by simp
  from a have s: "handleTextAreaBlur props c =
      (commit c
         (if findIndex (\<lambda>el. el_id el = ident) (elements c) \<ge> 0 then
            (elements c)
              [nat (findIndex (\<lambda>el. el_id el = ident) (elements c)) :=
                 (elements c ! nat (findIndex (\<lambda>el. el_id el = ident) (elements c)))
                   \<lparr>el_data := TextData (textInput c) (ds_color (drawingSettings props))
                                (ds_size (drawingSettings props)),
                    el_editing := Some False\<rparr>]
          else elements c @ [newTextElement props c ident]))
        \<lparr>editingText := None, textInput := [], toasts := toasts c @ [''Text saved!'']\<rparr>"
    by (simp add: blur_submits)
  show "el_type (newTextElement props c ident) = Text"
    "el_data (newTextElement props c ident)
          = TextData (textInput c) (ds_color (drawingSettings props)) (ds_size (drawingSettings props))"
    by (simp_all add: newTextElement_def)
  show "history (handleTextAreaBlur props c)
          = take (nat (historyIndex c) + 1) (history c) @ [elements (handleTextAreaBlur props c)]"
    unfolding s by (simp add: commit_fields [OF v])
  show "historyIndex (handleTextAreaBlur props c) = historyIndex c + 1"
    unfolding s by (simp add: commit_fields [OF v])
  show "editingText (handleTextAreaBlur props c) = None" "textInput (handleTextAreaBlur props c) = []"
    unfolding s by simp_all
  {
    assume n: "findIndex (\<lambda>el. el_id el = ident) (elements c) < 0"
    from findIndex_negative [OF n] show "\<forall>el \<in> set (elements c). el_id el \<noteq> ident" .
    show "elements (handleTextAreaBlur props c) = elements c @ [newTextElement props c ident]"
      unfolding s using n by (simp add: commit_fields [OF v])
  }
  {
    assume p: "0 \<le> findIndex (\<lambda>el. el_id el = ident) (elements c)"
    from findIndex_found [OF p]
    show "nat (findIndex (\<lambda>el. el_id el = ident) (elements c)) < length (elements c)"
      "el_id (elements c ! nat (findIndex (\<lambda>el. el_id el = ident) (elements c))) = ident"
      by simp_all
    show "elements (handleTextAreaBlur props c) =
             (elements c)
               [nat (findIndex (\<lambda>el. el_id el = ident) (elements c)) :=
                  (elements c ! nat (findIndex (\<lambda>el. el_id el = ident) (elements c)))
                    \<lparr>el_data := TextData (textInput c) (ds_color (drawingSettings props))
                                 (ds_size (drawingSettings props)),
                     el_editing := Some False\<rparr>]"
      unfolding s using p by (simp add: commit_fields [OF v])
  }
qed


theorem text_overlay_escape_and_blur_witness:
  "key escapeKey = ''Escape''
   \<and> handleKeyDown textProps typingHi escapeKey = typingHi\<lparr>editingText := None, textInput := []\<rparr>
   \<and> elements (handleKeyDown textProps typingHi escapeKey) = []
   \<and> history (handleKeyDown textProps typingHi escapeKey) = [[]]
   \<and> trim (textInput typingSpace) = []
   \<and> elements (handleTextAreaBlur textProps typingSpace) = elements typingSpace
   \<and> editingText typingHi = Some ''text-7'' \<and> trim (textInput typingHi) = ''Hi'' \<and> validIndex typingHi
   \<and> findIndex (\<lambda>el. el_id el = ''text-7'') (elements typingHi) = - 1
   \<and> elements (handleTextAreaBlur textProps typingHi) = [newTextElement textProps typingHi ''text-7'']
   \<and> el_data (newTextElement textProps typingHi ''text-7'') = TextData ''Hi'' ''#000000'' 4
   \<and> history (handleTextAreaBlur textProps typingHi) = [[], [newTextElement textProps typingHi ''text-7'']]
   \<and> historyIndex (handleTextAreaBlur textProps typingHi) = 1
   \<and> editingText retypingHi = Some ''text-7'' \<and> validIndex retypingHi
   \<and> findIndex (\<lambda>el. el_id el = ''text-7'') (elements retypingHi) = 1
   \<and> elements (handleTextAreaBlur textProps retypingHi)
       = [strokeA, oldText\<lparr>el_data := TextData ''Hi'' ''#000000'' 4, el_editing := Some False\<rparr>]
   \<and> history (handleTextAreaBlur textProps retypingHi)
       = [[], [strokeA, oldText],
          [strokeA, oldText\<lparr>el_data := TextData ''Hi'' ''#000000'' 4, el_editing := Some False\<rparr>]]
   \<and> historyIndex (handleTextAreaBlur textProps retypingHi) = 2"
proof -
  have k: "key escapeKey = ''Escape''" by (simp add: escapeKey_def)
  have f1: "elements typingHi = []" "history typingHi = [[]]" "historyIndex typingHi = 0"
    "editingText typingHi = Some ''text-7''" "textInput typingHi = ''Hi''"
    by (simp_all add: typingHi_def initialState_def)
  have f2: "elements retypingHi = [strokeA, oldText]" "history retypingHi = [[], [strokeA, oldText]]"
    "historyIndex retypingHi = 1" "editingText retypingHi = Some ''text-7''"
    "textInput retypingHi = ''Hi''"
    by (simp_all add: retypingHi_def)
  have t0: "trim (textInput typingSpace) = []"
    by (simp add: typingSpace_def trim_def isWhiteSpace_def)
  have t1: "trim ''Hi'' = ''Hi''"
    by (simp add: trim_def isWhiteSpace_def)
  have v: "validIndex typingHi" "validIndex retypingHi"
    by (simp_all add: validIndex_def f1 f2)
  have i1: "findIndex (\<lambda>el. el_id el = ''text-7'') (elements typingHi) = - 1"
    by (simp add: findIndex_def f1)
  have i2: "findIndex (\<lambda>el. el_id el = ''text-7'') (elements retypingHi) = 1"
    by (simp add: findIndex_def f2 strokeA_def stroke_def oldText_def)
  have j1: "findIndex (\<lambda>el. el_id el = ''text-7'') ([] :: unit canvasElement list) = - 1"
    using i1 by (simp add: f1)
  have j2: "findIndex (\<lambda>el. el_id el = ''text-7'') [strokeA, oldText] = 1"
    using i2 by (simp add: f2)
  have d: "ds_color (drawingSettings textProps) = ''#000000''" "ds_size (drawingSettings textProps) = 4"
    by (simp_all add: textProps_def exampleProps_def)
  note T1 = text_overlay_escape_and_blur [of escapeKey textProps typingHi "''text-7''"]
  note T0 = text_overlay_escape_and_blur [of escapeKey textProps typingSpace "''text-7''"]
  note T2 = text_overlay_escape_and_blur [of escapeKey textProps retypingHi "''text-7''"]
  note E = T1 [THEN conjunct1, THEN mp, OF k]
  have e: "handleKeyDown textProps typingHi escapeKey = typingHi\<lparr>editingText := None, textInput := []\<rparr>"
    "elements (handleKeyDown textProps typingHi escapeKey) = []"
    "history (handleKeyDown textProps typingHi escapeKey) = [[]]"
    using E by (simp_all add: f1)
  note B = T0 [THEN conjunct2, THEN conjunct1, THEN mp, OF t0]
  have b: "elements (handleTextAreaBlur textProps typingSpace) = elements typingSpace"
    using B by simp
  have c1: "editingText typingHi = Some ''text-7'' \<and> ''text-7'' \<noteq> [] \<and> trim (textInput typingHi) \<noteq> []
      \<and> validIndex typingHi"
    by (simp add: f1 t1 v)
  have c2: "editingText retypingHi = Some ''text-7'' \<and> ''text-7'' \<noteq> [] \<and> trim (textInput retypingHi) \<noteq> []
      \<and> validIndex retypingHi"
    by (simp add: f2 t1 v)
  note R1 = T1 [THEN conjunct2, THEN conjunct2, THEN mp, OF c1]
  note R2 = T2 [THEN conjunct2, THEN conjunct2, THEN mp, OF c2]
  have n1: "findIndex (\<lambda>el. el_id el = ''text-7'') (elements typingHi) < 0" by (simp add: i1)
  have p2: "0 \<le> findIndex (\<lambda>el. el_id el = ''text-7'') (elements retypingHi)" by (simp add: i2)
  have el1: "elements (handleTextAreaBlur textProps typingHi) = [newTextElement textProps typingHi ''text-7'']"
    using R1 [THEN conjunct1, THEN mp, OF n1] by (simp add: f1)
  have el2: "elements (handleTextAreaBlur textProps retypingHi)
       = [strokeA, oldText\<lparr>el_data := TextData ''Hi'' ''#000000'' 4, el_editing := Some False\<rparr>]"
    using R2 [THEN conjunct2, THEN conjunct1, THEN mp, OF p2] by (simp add: j2 f2 d)
  note S1 = R1 [THEN conjunct2, THEN conjunct2]
  note S2 = R2 [THEN conjunct2, THEN conjunct2]
  have nd: "el_data (newTextElement textProps typingHi ''text-7'') = TextData ''Hi'' ''#000000'' 4"
    using S1 by (simp add: f1 d)
  have h1: "history (handleTextAreaBlur textProps typingHi) = [[], [newTextElement textProps typingHi ''text-7'']]"
    "historyIndex (handleTextAreaBlur textProps typingHi) = 1"
    using S1 by (simp_all add: f1 el1)
  have h2: "history (handleTextAreaBlur textProps retypingHi)
       = [[], [strokeA, oldText],
          [strokeA, oldText\<lparr>el_data := TextData ''Hi'' ''#000000'' 4, el_editing := Some False\<rparr>]]"
    "historyIndex (handleTextAreaBlur textProps retypingHi) = 2"
    using S2 by (simp_all add: f2 el2)
  show ?thesis
    by (simp add: k e t0 b f1 f2 t1 v j1 j2 el1 el2 nd h1 h2)
qed

section \<open>Selection after undo and redo\<close>

lemma move_without_selection:
  assumes "selectedElement s = None"
  shows "\<exists>s'. handleMouseMove props ev s e = Inr s' \<and> elements s' = elements s"
proof -
  have h: "hoverStep props ev s pos t = Inr t" for pos t
    using assms by (simp add: hoverStep_def)
  have d: "dragStep props s pos t = t" for pos t
    using assms by (simp add: dragStep_def)
  have r: "resizeStep ev s pos t = Inr t" for pos t
    using assms by (simp add: resizeStep_def split: option.splits)
  show ?thesis
    by (simp add: handleMouseMove_def Let_def h d r split: option.splits)
qed

text \<open>
  C10. An undo or a redo that moves the history index leaves no selected element: the
  tracker is none, so the renderer draws the selection border and handles for no
  element, whatever its \<^verbatim>\<open>selected\<close> flag, and no pointer move drags or resizes an
  element of the store.
\<close>

theorem undo_redo_clear_selection:
  assumes "undo c = Inr s \<or> redo c = Inr s" and "historyIndex s \<noteq> historyIndex c"
  shows "selectedElement s = None
       \<and> \<not> drawsSelection s el
       \<and> (\<exists>s'. handleMouseMove props ev s e = Inr s' \<and> elements s' = elements s)"
proof -
  from assms have n: "selectedElement s = None"
    by (auto simp: undo_def redo_def split: if_splits option.splits)
  then have "\<not> drawsSelection s el" by (simp add: drawsSelection_def)
  with n move_without_selection [OF n] show ?thesis by blast
qed

theorem undo_redo_clear_selection_witness:
  "redo redoable = Inr (redoable\<lparr>historyIndex := 1, elements := [selectedStroke],
                                selectedElement := None, toasts := [''Redone!'']\<rparr>)
   \<and> historyIndex (redoable\<lparr>historyIndex := 1, elements := [selectedStroke],
                                selectedElement := None, toasts := [''Redone!'']\<rparr>) \<noteq> historyIndex redoable
   \<and> el_selected selectedStroke = Some True
   \<and> isDragging (redoable\<lparr>historyIndex := 1, elements := [selectedStroke],
                                selectedElement := None, toasts := [''Redone!'']\<rparr>)
   \<and> \<not> drawsSelection (redoable\<lparr>historyIndex := 1, elements := [selectedStroke],
                                selectedElement := None, toasts := [''Redone!'']\<rparr>) selectedStroke
   \<and> (\<exists>s'. handleMouseMove selectProps exampleEnv
              (redoable\<lparr>historyIndex := 1, elements := [selectedStroke],
                         selectedElement := None, toasts := [''Redone!'']\<rparr>) (mouseAt 30 30 0) = Inr s'
          \<and> elements s' = [selectedStroke])"
proof -
  have r: "redo redoable = Inr (redoable\<lparr>historyIndex := 1, elements := [selectedStroke],
                                selectedElement := None, toasts := [''Redone!'']\<rparr>)"
    by (simp add: redo_def redoable_def initialState_def at_index_def)
  have i: "historyIndex (redoable\<lparr>historyIndex := 1, elements := [selectedStroke],
                                selectedElement := None, toasts := [''Redone!'']\<rparr>) \<noteq> historyIndex redoable"
    by (simp add: redoable_def initialState_def)
  have d: "isDragging redoable" by (simp add: redoable_def)
  have f: "el_selected selectedStroke = Some True" by (simp add: selectedStroke_def)
  from undo_redo_clear_selection [OF disjI2 [OF r] i, of selectedStroke selectProps exampleEnv "mouseAt 30 30 0"]
  show ?thesis using r i d f by simp
qed

section \<open>Resize\<close>

lemma splitNl_nonempty: "splitNl t \<noteq> []"
  by (induction t) (auto split: list.splits)

lemma text_bounds:
  assumes "el_type el = Text" and "el_data el = TextData t col sz"
  shows "\<exists>w. getElementBounds ctx el = Inr (box (el_x el) (el_y el) w (real (length (splitNl t)) * sz * 10))"
proof -
  obtain l ls where l: "splitNl t = l # ls"
    using splitNl_nonempty [of t] by (cases "splitNl t") auto
  show ?thesis
    using assms by (cases ctx) (simp_all add: getElementBounds_def Let_def l box_def)
qed

lemma path_bounds_anchor:
  assumes "el_type el = Path" and "el_data el = PathData pts col sz pr"
  shows "getElementBounds ctx (el\<lparr>el_x := a, el_y := b\<rparr>) = getElementBounds ctx el"
  using assms by (simp add: getElementBounds_def)

lemma resizeBounds_corner:
  assumes "handle \<in> {''se'', ''sw'', ''ne'', ''nw''}"
  shows "20 \<le> b_width (resizeBounds handle dx dy b)" and "20 \<le> b_height (resizeBounds handle dx dy b)"
  using assms by (auto simp: resizeBounds_def)

lemma resizeBounds_edge:
  assumes "handle \<in> {''n'', ''s'', ''e'', ''w''}"
  shows "resizeBounds handle dx dy b = b"
  using assms by (auto simp: resizeBounds_def)

lemma scaled_height:
  assumes "0 < (n::real)"
  shows "n * max 1 (h / (n * 10)) * 10 = max h (10 * n)"
proof (cases "1 \<le> h / (n * 10)")
  case True
  then have "n * 10 \<le> h" using assms by (simp add: pos_le_divide_eq)
  with True assms show ?thesis by (simp add: max_def)
next
  case False
  then have "h < n * 10" using assms by (simp add: pos_le_divide_eq not_le)
  with False assms show ?thesis by (simp add: max_def)
qed

lemma resizeElement_text:
  assumes "Some (el_id el) = sel" and "getElementBounds ctx el = Inr b"
    and "el_type el = Text" and "el_data el = TextData t col sz"
  shows "resizeElement ctx sel handle dx dy el =
      Inr (el\<lparr>el_x := b_x (resizeBounds handle dx dy b), el_y := b_y (resizeBounds handle dx dy b),
              el_data := TextData t col
                (max 1 (b_height (resizeBounds handle dx dy b) / (real (length (splitNl t)) * 10)))\<rparr>)"
  using assms by (simp add: resizeElement_def Let_def)

lemma resizeElement_path:
  assumes "Some (el_id el) = sel" and "getElementBounds ctx el = Inr b" and "el_type el = Path"
  shows "resizeElement ctx sel handle dx dy el =
      Inr (el\<lparr>el_x := b_x (resizeBounds handle dx dy b), el_y := b_y (resizeBounds handle dx dy b)\<rparr>)"
  using assms by (simp add: resizeElement_def Let_def)

lemma resize_move:
  assumes "isResizing c" and "truthy (selectedElement c)" and "resizeHandle c = Some handle"
    and "handle \<noteq> []" and "\<not> isPanning c" and "\<not> isDrawing c" and "\<not> isDragging c"
  shows "(case handleMouseMove props ev c e of Inl err \<Rightarrow> Inl err | Inr s \<Rightarrow> Inr (elements s))
      = mapE (resizeElement (textCtx ev) (selectedElement c) handle
                (px (getMousePos ev c (clientOf e)) - px (dragStart c))
                (py (getMousePos ev c (clientOf e)) - py (dragStart c)))
          (elements c)"
proof -
  have h: "hoverStep props ev c pos t = Inr t" for pos t
    using assms(1) by (simp add: hoverStep_def)
  have d: "dragStep props c pos t = t" for pos t
    using assms(7) by (simp add: dragStep_def)
  show ?thesis
    using assms(1-6)
    by (simp add: handleMouseMove_def Let_def h d resizeStep_def split: option.splits sum.splits)
qed


lemma selectedStroke_bounds: "getElementBounds None selectedStroke = Inr (box 0 0 50 50)"
  by (simp add: getElementBounds_def selectedStroke_def strokeA_def stroke_def Let_def box_def)

lemma press_on_handle_starts_resize:
  "handleMouseDown selectProps exampleEnv strokeSelected (mouseAt 49 49 0) = Inr resizingStroke"
proof -
  have p: "getMousePos exampleEnv strokeSelected (clientOf (mouseAt 49 49 0)) = \<lparr>px = 49, py = 49\<rparr>"
    by (rule getMousePos_example) (simp_all add: strokeSelected_def initialState_def)
  have g: "getElementAtPosition None [selectedStroke] \<lparr>px = 49, py = 49\<rparr> = Inr (Some selectedStroke)"
    by (simp add: getElementAtPosition_def selectedStroke_bounds box_def inBox_def)
  have r: "getResizeHandle 1 None \<lparr>px = 49, py = 49\<rparr> selectedStroke = Inr (Some ''se'')"
    by (simp add: getResizeHandle_def selectedStroke_bounds box_def handlesOf_def Let_def)
  have f: "elements strokeSelected = [selectedStroke]" "selectedElement strokeSelected = Some ''path-1''"
    "zoom strokeSelected = 1" "el_id selectedStroke = ''path-1''"
    by (simp_all add: strokeSelected_def initialState_def selectedStroke_def strokeA_def stroke_def)
  have t: "activeTool selectProps = ToolSelect" "textCtx exampleEnv = None"
    by (simp_all add: selectProps_def exampleEnv_def)
  show ?thesis
    by (simp add: handleMouseDown_def Let_def p g r f t mouseAt_fields resizingStroke_def)
qed

lemma resizingStroke_fields:
  "isResizing resizingStroke" "selectedElement resizingStroke = Some ''path-1''"
  "resizeHandle resizingStroke = Some ''se''" "\<not> isPanning resizingStroke"
  "\<not> isDrawing resizingStroke" "\<not> isDragging resizingStroke"
  "elements resizingStroke = [selectedStroke]" "dragStart resizingStroke = \<lparr>px = 49, py = 49\<rparr>"
  "zoom resizingStroke = 1" "panOffset resizingStroke = origin"
  by (simp_all add: resizingStroke_def strokeSelected_def initialState_def)

lemma resize_stroke_move:
  "handleMouseMove selectProps exampleEnv resizingStroke (mouseAt 59 59 0)
     = Inr (resizingStroke\<lparr>dragStart := \<lparr>px = 59, py = 59\<rparr>\<rparr>)"
proof -
  have p: "getMousePos exampleEnv resizingStroke (clientOf (mouseAt 59 59 0)) = \<lparr>px = 59, py = 59\<rparr>"
    by (rule getMousePos_example) (simp_all add: resizingStroke_fields)
  have e: "resizingStroke\<lparr>eraserPosition := (eraserPosition resizingStroke)\<lparr>er_visible := False\<rparr>\<rparr>
      = resizingStroke"
    by (simp add: resizingStroke_def strokeSelected_def initialState_def)
  have i: "Some (el_id selectedStroke) = Some ''path-1''" "el_type selectedStroke = Path"
    by (simp_all add: selectedStroke_def strokeA_def stroke_def)
  have r: "resizeElement None (Some ''path-1'') ''se'' 10 10 selectedStroke = Inr selectedStroke"
    using resizeElement_path [OF i(1) selectedStroke_bounds i(2), of "''se''" 10 10]
    by (simp add: resizeBounds_def box_def selectedStroke_def strokeA_def stroke_def)
  have h: "hoverStep selectProps exampleEnv resizingStroke pos t = Inr t" for pos t
    by (simp add: hoverStep_def resizingStroke_fields)
  have d: "dragStep selectProps resizingStroke pos t = t" for pos t
    by (simp add: dragStep_def resizingStroke_fields)
  have s: "resizeStep exampleEnv resizingStroke \<lparr>px = 59, py = 59\<rparr> resizingStroke
      = Inr (resizingStroke\<lparr>elements := [selectedStroke], dragStart := \<lparr>px = 59, py = 59\<rparr>\<rparr>)"
    by (simp add: resizeStep_def resizingStroke_fields exampleEnv_def r)
  have u: "resizingStroke\<lparr>elements := [selectedStroke], dragStart := \<lparr>px = 59, py = 59\<rparr>\<rparr>
      = resizingStroke\<lparr>dragStart := \<lparr>px = 59, py = 59\<rparr>\<rparr>"
    by (simp add: resizingStroke_def strokeSelected_def)
  have t: "activeTool selectProps = ToolSelect"
    by (simp add: selectProps_def)
  show ?thesis
    by (simp add: handleMouseMove_def Let_def p e h d s u t resizingStroke_fields)
qed

text \<open>
  C4, as stated, fails: the selected stroke has the bounds (0, 0, 50, 50), the handle
  \<^verbatim>\<open>se\<close> is grabbed and the pointer moves by (10, 10). The move writes the anchor only,
  which the bounds of a stroke do not read: they are (0, 0, 50, 50) afterwards, not
  (0, 0, 60, 60).
\<close>

theorem resize_stroke_counterexample:
  "handleMouseDown selectProps exampleEnv strokeSelected (mouseAt 49 49 0) = Inr resizingStroke
   \<and> elements resizingStroke = [selectedStroke]
   \<and> getElementBounds None selectedStroke = Inr (box 0 0 50 50)
   \<and> handleMouseMove selectProps exampleEnv resizingStroke (mouseAt 59 59 0)
       = Inr (resizingStroke\<lparr>dragStart := \<lparr>px = 59, py = 59\<rparr>\<rparr>)
   \<and> elements (resizingStroke\<lparr>dragStart := \<lparr>px = 59, py = 59\<rparr>\<rparr>) = [selectedStroke]
   \<and> getElementBounds None selectedStroke \<noteq> Inr (box 0 0 60 60)"
  using press_on_handle_starts_resize resize_stroke_move
  by (simp add: resizingStroke_fields selectedStroke_bounds box_def)

text \<open>
  C4, amended. A pointer move during a resize maps the update of lines 483 to 527 over
  the store. The update recomputes a box from the bounds of the selected element: with
  the handle \<^verbatim>\<open>se\<close>, the bounds (0, 0, 50, 50) and the delta (10, 10) the box is
  (0, 0, 60, 60), with \<^verbatim>\<open>nw\<close> it is (10, 10, 40, 40), and for the four corner handles
  its width and height are at least 20. The element takes the origin of the box as its
  anchor. A text element also takes the size max(1, box height / (lines * 10)), so that
  its bounds have the origin of the box and the height max(box height, 10 * lines). The
  points of a stroke are not rescaled, and its bounds stay as they were. Every other
  element stays as it was.
\<close>

theorem resize_recomputes_box:
  "resizeBounds ''se'' 10 10 (box 0 0 50 50) = box 0 0 60 60
   \<and> resizeBounds ''nw'' 10 10 (box 0 0 50 50) = box 10 10 40 40
   \<and> (handle \<in> {''se'', ''sw'', ''ne'', ''nw''} \<longrightarrow>
        20 \<le> b_width (resizeBounds handle dx dy b) \<and> 20 \<le> b_height (resizeBounds handle dx dy b))
   \<and> (Some (el_id el) = sel \<and> getElementBounds ctx el = Inr b \<and> el_type el = Text
        \<and> el_data el = TextData t col sz \<longrightarrow>
        resizeElement ctx sel handle dx dy el =
          Inr (el\<lparr>el_x := b_x (resizeBounds handle dx dy b),
                  el_y := b_y (resizeBounds handle dx dy b),
                  el_data := TextData t col
                    (max 1 (b_height (resizeBounds handle dx dy b)
                            / (real (length (splitNl t)) * 10)))\<rparr>)
        \<and> (\<exists>w. getElementBounds ctx
                  (el\<lparr>el_x := b_x (resizeBounds handle dx dy b),
                      el_y := b_y (resizeBounds handle dx dy b),
                      el_data := TextData t col
                        (max 1 (b_height (resizeBounds handle dx dy b)
                                / (real (length (splitNl t)) * 10)))\<rparr>)
               = Inr (box (b_x (resizeBounds handle dx dy b)) (b_y (resizeBounds handle dx dy b)) w
                        (max (b_height (resizeBounds handle dx dy b))
                           (10 * real (length (splitNl t)))))))
   \<and> (Some (el_id el) = sel \<and> getElementBounds ctx el = Inr b \<and> el_type el = Path \<longrightarrow>
        resizeElement ctx sel handle dx dy el =
          Inr (el\<lparr>el_x := b_x (resizeBounds handle dx dy b),
                  el_y := b_y (resizeBounds handle dx dy b)\<rparr>)
        \<and> (el_data el = PathData pts col sz pr \<longrightarrow>
             getElementBounds ctx
               (el\<lparr>el_x := b_x (resizeBounds handle dx dy b),
                   el_y := b_y (resizeBounds handle dx dy b)\<rparr>) = Inr b))
   \<and> (Some (el_id el) \<noteq> sel \<longrightarrow> resizeElement ctx sel handle dx dy el = Inr el)
   \<and> (isResizing c \<and> truthy (selectedElement c) \<and> resizeHandle c = Some handle \<and> handle \<noteq> []
        \<and> \<not> isPanning c \<and> \<not> isDrawing c \<and> \<not> isDragging c \<longrightarrow>
        (case handleMouseMove props ev c e of Inl err \<Rightarrow> Inl err | Inr s \<Rightarrow> Inr (elements s))
          = mapE (resizeElement (textCtx ev) (selectedElement c) handle
                    (px (getMousePos ev c (clientOf e)) - px (dragStart c))
                    (py (getMousePos ev c (clientOf e)) - py (dragStart c)))
              (elements c))"
proof (intro conjI impI)
  show "resizeBounds ''se'' 10 10 (box 0 0 50 50) = box 0 0 60 60"
    by (simp add: resizeBounds_def box_def)
  show "resizeBounds ''nw'' 10 10 (box 0 0 50 50) = box 10 10 40 40"
    by (simp add: resizeBounds_def box_def)
next
  assume "handle \<in> {''se'', ''sw'', ''ne'', ''nw''}"
  then show "20 \<le> b_width (resizeBounds handle dx dy b)" "20 \<le> b_height (resizeBounds handle dx dy b)"
    by (rule resizeBounds_corner)+
next
  assume a: "Some (el_id el) = sel \<and> getElementBounds ctx el = Inr b \<and> el_type el = Text
        \<and> el_data el = TextData t col sz"
  let ?nb = "resizeBounds handle dx dy b"
  let ?el = "el\<lparr>el_x := b_x ?nb, el_y := b_y ?nb,
                 el_data := TextData t col (max 1 (b_height ?nb / (real (length (splitNl t)) * 10)))\<rparr>"
  from a show "resizeElement ctx sel handle dx dy el = Inr ?el"
    by (simp add: resizeElement_text)
  have n: "0 < real (length (splitNl t))"
    using splitNl_nonempty [of t] by simp
  from a have "el_type ?el = Text"
    "el_data ?el = TextData t col (max 1 (b_height ?nb / (real (length (splitNl t)) * 10)))"
    by simp_all
  from text_bounds [OF this, of ctx]
  obtain w where "getElementBounds ctx ?el
      = Inr (box (el_x ?el) (el_y ?el) w
          (real (length (splitNl t)) * max 1 (b_height ?nb / (real (length (splitNl t)) * 10)) * 10))"
    by blast
  then have "getElementBounds ctx ?el
      = Inr (box (b_x ?nb) (b_y ?nb) w (max (b_height ?nb) (10 * real (length (splitNl t)))))"
    by (simp add: scaled_height [OF n])
  then show "\<exists>w. getElementBounds ctx ?el
      = Inr (box (b_x ?nb) (b_y ?nb) w (max (b_height ?nb) (10 * real (length (splitNl t)))))"
    by blast
next
  assume a: "Some (el_id el) = sel \<and> getElementBounds ctx el = Inr b \<and> el_type el = Path"
  then show "resizeElement ctx sel handle dx dy el =
          Inr (el\<lparr>el_x := b_x (resizeBounds handle dx dy b),
                  el_y := b_y (resizeBounds handle dx dy b)\<rparr>)"
    by (simp add: resizeElement_path)
  assume "el_data el = PathData pts col sz pr"
  with a show "getElementBounds ctx
               (el\<lparr>el_x := b_x (resizeBounds handle dx dy b),
                   el_y := b_y (resizeBounds handle dx dy b)\<rparr>) = Inr b"
    by (simp add: path_bounds_anchor)
next
  assume "Some (el_id el) \<noteq> sel"
  then show "resizeElement ctx sel handle dx dy el = Inr el"
    by (simp add: resizeElement_def)
next
  assume "isResizing c \<and> truthy (selectedElement c) \<and> resizeHandle c = Some handle \<and> handle \<noteq> []
        \<and> \<not> isPanning c \<and> \<not> isDrawing c \<and> \<not> isDragging c"
  then show "(case handleMouseMove props ev c e of Inl err \<Rightarrow> Inl err | Inr s \<Rightarrow> Inr (elements s))
          = mapE (resizeElement (textCtx ev) (selectedElement c) handle
                    (px (getMousePos ev c (clientOf e)) - px (dragStart c))
                    (py (getMousePos ev c (clientOf e)) - py (dragStart c)))
              (elements c)"
    by (simp add: resize_move)
qed

lemma textBlock_bounds:
  "getElementBounds None (textBlock x y sz) = Inr (box x y (5 * sz * 6) (3 * sz * 10))"
  by (simp add: getElementBounds_def textBlock_def Let_def box_def)

lemma textBlock_lines: "length (splitNl (''abcde'' @ [CHR 0x0A, CHR 0x0A])) = 3"
  by simp

theorem resize_recomputes_box_witness:
  "''nw'' \<in> {''se'', ''sw'', ''ne'', ''nw''}
   \<and> resizeBounds ''nw'' 100 100 (box 0 0 50 50) = box 100 100 20 20
   \<and> getElementBounds None (textBlock 0 0 (5 / 3)) = Inr (box 0 0 50 50)
   \<and> resizeElement None (Some ''text-1'') ''se'' 10 10 (textBlock 0 0 (5 / 3)) = Inr (textBlock 0 0 2)
   \<and> getElementBounds None (textBlock 0 0 2) = Inr (box 0 0 60 60)
   \<and> resizeElement None (Some ''text-1'') ''nw'' 10 10 (textBlock 0 0 (5 / 3)) = Inr (textBlock 10 10 (4 / 3))
   \<and> getElementBounds None (textBlock 10 10 (4 / 3)) = Inr (box 10 10 40 40)
   \<and> getElementBounds None selectedStroke = Inr (box 0 0 50 50)
   \<and> resizeElement None (Some ''path-1'') ''se'' 10 10 selectedStroke = Inr selectedStroke
   \<and> resizeElement None (Some ''path-1'') ''se'' 10 10 strokeB = Inr strokeB
   \<and> isResizing resizingText \<and> resizeHandle resizingText = Some ''se''
   \<and> (case handleMouseMove selectProps exampleEnv resizingText (mouseAt 59 59 0) of
         Inl err \<Rightarrow> Inl err | Inr s \<Rightarrow> Inr (elements s)) = Inr [textBlock 0 0 2]"
proof -
  have tb: "el_id (textBlock x y sz) = ''text-1''" "el_type (textBlock x y sz) = Text"
    "el_data (textBlock x y sz) = TextData (''abcde'' @ [CHR 0x0A, CHR 0x0A]) ''#000000'' sz" for x y sz
    by (simp_all add: textBlock_def)
  have b0: "getElementBounds None (textBlock 0 0 (5 / 3)) = Inr (box 0 0 50 50)"
    by (simp add: textBlock_bounds)
  have ht: "Some (el_id (textBlock 0 0 (5 / 3))) = Some ''text-1''
      \<and> getElementBounds None (textBlock 0 0 (5 / 3)) = Inr (box 0 0 50 50)
      \<and> el_type (textBlock 0 0 (5 / 3)) = Text
      \<and> el_data (textBlock 0 0 (5 / 3)) = TextData (''abcde'' @ [CHR 0x0A, CHR 0x0A]) ''#000000'' (5 / 3)"
    by (simp add: tb b0)
  note Tse = resize_recomputes_box [where handle = "''se''" and dx = 10 and dy = 10
      and b = "box 0 0 50 50" and el = "textBlock 0 0 (5 / 3)" and sel = "Some ''text-1''"
      and ctx = None and t = "''abcde'' @ [CHR 0x0A, CHR 0x0A]" and col = "''#000000''"
      and sz = "5 / 3" and c = resizingText and props = selectProps and ev = exampleEnv
      and e = "mouseAt 59 59 0"]
  note Tnw = resize_recomputes_box [where handle = "''nw''" and dx = 10 and dy = 10
      and b = "box 0 0 50 50" and el = "textBlock 0 0 (5 / 3)" and sel = "Some ''text-1''"
      and ctx = None and t = "''abcde'' @ [CHR 0x0A, CHR 0x0A]" and col = "''#000000''"
      and sz = "5 / 3"]
  note Tc = resize_recomputes_box [where handle = "''nw''" and dx = 100 and dy = 100
      and b = "box 0 0 50 50"]
  note Tp = resize_recomputes_box [where handle = "''se''" and dx = 10 and dy = 10
      and b = "box 0 0 50 50" and el = selectedStroke and sel = "Some ''path-1''" and ctx = None]
  note To = resize_recomputes_box [where handle = "''se''" and dx = 10 and dy = 10
      and el = strokeB and sel = "Some ''path-1''" and ctx = None]
  have se: "resizeBounds ''se'' 10 10 (box 0 0 50 50) = box 0 0 60 60"
    and nw: "resizeBounds ''nw'' 10 10 (box 0 0 50 50) = box 10 10 40 40"
    using Tse by simp_all
  have bx: "b_x (box x y w h) = x" "b_y (box x y w h) = y" "b_width (box x y w h) = w"
    "b_height (box x y w h) = h" for x y w h
    by (simp_all add: box_def)
  have m: "''nw'' \<in> {''se'', ''sw'', ''ne'', ''nw''}" by simp
  have c: "resizeBounds ''nw'' 100 100 (box 0 0 50 50) = box 100 100 20 20"
    by (simp add: resizeBounds_def box_def)
  have r1: "resizeElement None (Some ''text-1'') ''se'' 10 10 (textBlock 0 0 (5 / 3)) = Inr (textBlock 0 0 2)"
    using Tse [THEN conjunct2, THEN conjunct2, THEN conjunct2, THEN conjunct1, THEN mp, OF ht,
        THEN conjunct1]
    by (simp add: se bx textBlock_lines) (simp add: textBlock_def)
  have r2: "resizeElement None (Some ''text-1'') ''nw'' 10 10 (textBlock 0 0 (5 / 3)) = Inr (textBlock 10 10 (4 / 3))"
    using Tnw [THEN conjunct2, THEN conjunct2, THEN conjunct2, THEN conjunct1, THEN mp, OF ht,
        THEN conjunct1]
    by (simp add: nw bx textBlock_lines) (simp add: textBlock_def)
  have sb: "getElementBounds None selectedStroke = Inr (box 0 0 50 50)"
    by (rule selectedStroke_bounds)
  have hp: "Some (el_id selectedStroke) = Some ''path-1''
      \<and> getElementBounds None selectedStroke = Inr (box 0 0 50 50) \<and> el_type selectedStroke = Path"
    by (simp add: sb) (simp add: selectedStroke_def strokeA_def stroke_def)
  have r3: "resizeElement None (Some ''path-1'') ''se'' 10 10 selectedStroke = Inr selectedStroke"
    using Tp [THEN conjunct2, THEN conjunct2, THEN conjunct2, THEN conjunct2, THEN conjunct1,
        THEN mp, OF hp, THEN conjunct1]
    by (simp add: se bx) (simp add: selectedStroke_def strokeA_def stroke_def)
  have ho: "Some (el_id strokeB) \<noteq> Some ''path-1''"
    by (simp add: strokeB_def stroke_def)
  have r4: "resizeElement None (Some ''path-1'') ''se'' 10 10 strokeB = Inr strokeB"
    using To [THEN conjunct2, THEN conjunct2, THEN conjunct2, THEN conjunct2, THEN conjunct2,
        THEN conjunct1, THEN mp, OF ho] .
  have f: "isResizing resizingText" "selectedElement resizingText = Some ''text-1''"
    "resizeHandle resizingText = Some ''se''" "\<not> isPanning resizingText"
    "\<not> isDrawing resizingText" "\<not> isDragging resizingText"
    "elements resizingText = [textBlock 0 0 (5 / 3)]" "dragStart resizingText = \<lparr>px = 49, py = 49\<rparr>"
    "zoom resizingText = 1" "panOffset resizingText = origin"
    by (simp_all add: resizingText_def initialState_def)
  have hs: "isResizing resizingText \<and> truthy (selectedElement resizingText)
      \<and> resizeHandle resizingText = Some ''se'' \<and> ''se'' \<noteq> []
      \<and> \<not> isPanning resizingText \<and> \<not> isDrawing resizingText \<and> \<not> isDragging resizingText"
    by (simp add: f)
  have p: "getMousePos exampleEnv resizingText (clientOf (mouseAt 59 59 0)) = \<lparr>px = 59, py = 59\<rparr>"
    by (rule getMousePos_example) (simp_all add: f)
  have tc: "textCtx exampleEnv = None" by (simp add: exampleEnv_def)
  have r5: "(case handleMouseMove selectProps exampleEnv resizingText (mouseAt 59 59 0) of
         Inl err \<Rightarrow> Inl err | Inr s \<Rightarrow> Inr (elements s)) = Inr [textBlock 0 0 2]"
    using Tse [THEN conjunct2, THEN conjunct2, THEN conjunct2, THEN conjunct2, THEN conjunct2,
        THEN conjunct2, THEN mp, OF hs]
    by (simp add: p f tc r1)
  show ?thesis
    using m c b0 r1 r2 sb r3 r4 r5 f(1,3)
    by (simp add: textBlock_bounds)
qed

section \<open>Well-formed stores\<close>

lemma Math_max_Some: "xs \<noteq> [] \<Longrightarrow> \<exists>m. Math_max xs = Some m"
  by (cases xs) simp_all

lemma Math_min_Some: "xs \<noteq> [] \<Longrightarrow> \<exists>m. Math_min xs = Some m"
  by (cases xs) simp_all

lemma wellFormed_bounds:
  assumes "wellFormed el"
  shows "\<exists>b. getElementBounds ctx el = Inr b"
proof (cases "el_data el")
  case (PathData pts col sz pr)
  with assms have p: "el_type el = Path" "pts \<noteq> []" by (simp_all add: wellFormed_def)
  from p(2) obtain a b c d where "Math_min (map px pts) = Some a" "Math_max (map px pts) = Some b"
    "Math_min (map py pts) = Some c" "Math_max (map py pts) = Some d"
    using Math_max_Some [of "map px pts"] Math_min_Some [of "map px pts"]
      Math_max_Some [of "map py pts"] Math_min_Some [of "map py pts"] by auto
  with PathData p(1) show ?thesis by (simp add: getElementBounds_def Let_def)
next
  case (TextData t col sz)
  show ?thesis
  proof (cases "el_type el")
    case Path
    with TextData show ?thesis by (simp add: getElementBounds_def)
  next
    case Text
    obtain l ls where "splitNl t = l # ls"
      using splitNl_nonempty [of t] by (cases "splitNl t") auto
    with TextData Text show ?thesis
      by (cases ctx) (simp_all add: getElementBounds_def Let_def)
  qed
qed

lemma wellFormed_no_TypeError: "wellFormed el \<Longrightarrow> getElementBounds ctx el \<noteq> Inl TypeError"
  using wellFormed_bounds [of el ctx] by auto

lemma wellFormed_flags:
  "wellFormed (el\<lparr>el_selected := a\<rparr>) = wellFormed el"
  "wellFormed (el\<lparr>el_selected := a, el_editing := b\<rparr>) = wellFormed el"
  "wellFormed (el\<lparr>el_x := x, el_y := y\<rparr>) = wellFormed el"
  by (simp_all add: wellFormed_def split: elementData.splits)

lemma wellFormed_text_data: "wellFormed (el\<lparr>el_data := TextData t col sz\<rparr>)"
  "wellFormed (el\<lparr>el_data := TextData t col sz, el_editing := b\<rparr>)"
  "wellFormed (el\<lparr>el_x := x, el_y := y, el_data := TextData t col sz\<rparr>)"
  by (simp_all add: wellFormed_def)

lemma wellFormed_dragElement: "wellFormed el \<Longrightarrow> wellFormed (dragElement sel dx dy el)"
  by (auto simp: dragElement_def wellFormed_def split: elementType.splits elementData.splits)

lemma wellFormed_resizeElement:
  "wellFormed el \<Longrightarrow> resizeElement ctx sel handle dx dy el = Inr el' \<Longrightarrow> wellFormed el'"
  by (auto simp: resizeElement_def Let_def wellFormed_def
      split: if_splits sum.splits elementData.splits)

lemma mapE_all:
  assumes "mapE f xs = Inr ys" and "list_all P xs" and "\<And>x y. P x \<Longrightarrow> f x = Inr y \<Longrightarrow> P y"
  shows "list_all P ys"
  using assms(1,2)
proof (induction xs arbitrary: ys)
  case Nil
  then show ?case by simp
next
  case (Cons x xs)
  then show ?case
    by (auto split: sum.splits intro: assms(3))
qed

lemma wellFormed_newPathElement: "pts \<noteq> [] \<Longrightarrow> wellFormed (newPathElement props ev pts)"
  by (simp add: newPathElement_def wellFormed_def)

lemma wellFormed_newTextElement: "wellFormed (newTextElement props c ident)"
  by (simp add: newTextElement_def wellFormed_def)

lemma all_take: "list_all P xs \<Longrightarrow> list_all P (take n xs)"
  by (auto simp: list_all_iff dest: in_set_takeD)

lemma all_slice0: "list_all P xs \<Longrightarrow> list_all P (slice0 xs e)"
  by (simp add: slice0_def all_take)

lemma storeOk_addToHistory:
  assumes "list_all (list_all wellFormed) (history c)" and "list_all wellFormed es"
    and "list_all wellFormed (elements s)"
  shows "storeOk (addToHistory c es s)"
  using assms by (simp add: storeOk_def addToHistory_fields all_slice0)

lemma storeOk_commit:
  assumes "storeOk c" and "list_all wellFormed es"
  shows "storeOk (commit c es)"
  unfolding commit_def using assms
  by (intro storeOk_addToHistory) (simp_all add: storeOk_def)

lemma storeOk_fields:
  "storeOk (s\<lparr>toasts := a\<rparr>) = storeOk s"
  "storeOk (s\<lparr>editingText := b, textInput := t\<rparr>) = storeOk s"
  "storeOk (s\<lparr>editingText := b, textInput := t, toasts := a\<rparr>) = storeOk s"
  "storeOk (s\<lparr>currentPath := p, isDrawing := d\<rparr>) = storeOk s"
  "storeOk (s\<lparr>selectedElement := se, toasts := a\<rparr>) = storeOk s"
  by (simp_all add: storeOk_def)

lemma all_nth: "list_all P xs \<Longrightarrow> n < length xs \<Longrightarrow> P (xs ! n)"
  by (simp add: list_all_length)

lemma storeOk_undo: "storeOk c \<Longrightarrow> undo c = Inr s \<Longrightarrow> storeOk s"
  by (auto simp: undo_def storeOk_def at_index_def all_nth split: if_splits)

lemma storeOk_redo: "storeOk c \<Longrightarrow> redo c = Inr s \<Longrightarrow> storeOk s"
  by (auto simp: redo_def storeOk_def at_index_def all_nth split: if_splits)

lemma storeOk_clearCanvas: "storeOk c \<Longrightarrow> storeOk (clearCanvas c s)"
  by (simp add: clearCanvas_def storeOk_def addToHistory_fields all_slice0)

lemma storeOk_initialState: "storeOk initialState"
  by (simp add: storeOk_def initialState_def)

lemma storeOk_handleMouseUp:
  assumes "storeOk c"
  shows "storeOk (handleMouseUp props ev c)"
proof -
  from assms have h: "list_all (list_all wellFormed) (history c)" and e: "list_all wellFormed (elements c)"
    by (simp_all add: storeOk_def)
  have s1: "storeOk (addToHistory c (elements c)
      (c\<lparr>isDragging := False, isResizing := False, resizeHandle := None\<rparr>))"
    using h e by (intro storeOk_addToHistory) simp_all
  have s2: "storeOk (addToHistory c (elements c @ [newPathElement props ev (currentPath c)])
      (t\<lparr>elements := elements c @ [newPathElement props ev (currentPath c)]\<rparr>))"
    if "currentPath c \<noteq> []" for t :: "'a state"
    using h e that by (intro storeOk_addToHistory) (simp_all add: wellFormed_newPathElement)
  show ?thesis
    using assms s1 s2
    by (simp add: handleMouseUp_def Let_def storeOk_fields) (simp add: storeOk_def)
qed

lemma storeOk_handleTextSubmit:
  assumes "storeOk c"
  shows "storeOk (handleTextSubmit props c)"
proof -
  from assms have e: "list_all wellFormed (elements c)" by (simp add: storeOk_def)
  have u: "list_all wellFormed ((elements c)[n := (elements c ! n)\<lparr>el_data := TextData t col sz, el_editing := b\<rparr>])"
    for n t col sz b
    using e by (auto simp: list_all_iff wellFormed_text_data dest!: set_update_subset_insert [THEN subsetD])
  have a: "list_all wellFormed (elements c @ [newTextElement props c ident])" for ident
    using e by (simp add: wellFormed_newTextElement)
  show ?thesis
    using assms
    by (auto simp: handleTextSubmit_def Let_def storeOk_fields u e wellFormed_newTextElement
        intro!: storeOk_commit split: option.splits)
qed

lemma storeOk_handleTextAreaBlur: "storeOk c \<Longrightarrow> storeOk (handleTextAreaBlur props c)"
  by (simp add: handleTextAreaBlur_def storeOk_handleTextSubmit storeOk_fields)

lemma storeOk_handleKeyDown: "storeOk c \<Longrightarrow> storeOk (handleKeyDown props c e)"
  by (simp add: handleKeyDown_def storeOk_handleTextSubmit storeOk_fields)

lemma storeOk_handleZoom: "storeOk c \<Longrightarrow> storeOk (handleZoom ev c delta zc)"
  by (simp add: handleZoom_def Let_def storeOk_def split: option.splits)

lemma storeOk_handleMouseDown:
  assumes "storeOk c" and "handleMouseDown props ev c e = Inr s"
  shows "storeOk s"
proof -
  from assms(1) have el: "list_all wellFormed (elements c)" by (simp add: storeOk_def)
  have f: "list_all wellFormed (filter P (elements c))" for P
    using el by (auto simp: list_all_iff)
  have m1: "list_all wellFormed (map (\<lambda>el. el\<lparr>el_selected := g el\<rparr>) (elements c))" for g
    using el by (auto simp: list_all_iff wellFormed_flags)
  have m2: "list_all wellFormed (map (\<lambda>el. el\<lparr>el_selected := g el, el_editing := k el\<rparr>) (elements c))" for g k
    using el by (auto simp: list_all_iff wellFormed_flags)
  have c: "storeOk ((commit c (filter P (elements c)))\<lparr>toasts := a\<rparr>)" for P a
    unfolding storeOk_fields using assms(1) f by (rule storeOk_commit)
  show ?thesis
    using assms m1 m2 c
    by (auto simp: handleMouseDown_def Let_def storeOk_def
        split: if_splits sum.splits option.splits elementData.splits)
qed

lemma storeOk_handleMouseMove:
  assumes "storeOk c" and "handleMouseMove props ev c e = Inr s"
  shows "storeOk s"
proof -
  from assms(1) have el: "list_all wellFormed (elements c)"
    and h: "list_all (list_all wellFormed) (history c)" by (simp_all add: storeOk_def)
  have hv: "hoverStep props ev c pos t = Inr t' \<Longrightarrow> storeOk t \<Longrightarrow> storeOk t'" for pos t t'
    by (auto simp: hoverStep_def storeOk_def split: if_splits option.splits sum.splits)
  have dr: "storeOk t \<Longrightarrow> storeOk (dragStep props c pos t)" for pos t
    by (auto simp: dragStep_def storeOk_def Let_def list_all_iff wellFormed_dragElement)
  have rs: "resizeStep ev c pos t = Inr t' \<Longrightarrow> storeOk t \<Longrightarrow> storeOk t'" for pos t t'
    by (auto simp: resizeStep_def storeOk_def Let_def
        split: if_splits option.splits sum.splits
        elim!: mapE_all [where P = wellFormed] intro: wellFormed_resizeElement)
  have s1: "storeOk (c\<lparr>eraserPosition := p\<rparr>)" for p
    using assms(1) by (simp add: storeOk_def)
  have cp: "storeOk t \<Longrightarrow> storeOk (t\<lparr>currentPath := p\<rparr>)" for t p
    by (simp add: storeOk_def)
  have pn: "storeOk t \<Longrightarrow> storeOk (t\<lparr>panOffset := p, lastPanPoint := q\<rparr>)" for t p q
    by (simp add: storeOk_def)
  from assms(2) show ?thesis
    by (auto simp: handleMouseMove_def Let_def assms(1)
        split: if_splits sum.splits option.splits
        dest!: hv rs intro!: s1 cp pn dr)
qed

text \<open>On a well-formed store the hit test throws nothing.\<close>

lemma hit_test_wellFormed:
  assumes "list_all wellFormed es"
  shows "getElementAtPosition ctx es pos = Inr (hitTestSpec ctx es pos)"
proof -
  from assms have "\<forall>el \<in> set es. getElementBounds ctx el \<noteq> Inl TypeError"
    by (auto simp: list_all_iff wellFormed_no_TypeError)
  from scanDown_find [OF this, of "length es" pos] show ?thesis
    by (simp add: getElementAtPosition_def hitTestSpec_def)
qed

text \<open>
  On a well-formed state no pointer handler throws: the bounds of every element are
  finite and every payload read is there.
\<close>

lemma scanDown_wellFormed:
  assumes "list_all wellFormed es" and "n \<le> length es"
  shows "\<exists>r. scanDown ctx es pos n = Inr r \<and> (\<forall>el. r = Some el \<longrightarrow> el \<in> set es)"
  using assms(2)
proof (induction n)
  case 0
  then show ?case by simp
next
  case (Suc i)
  then have i: "i < length es" by simp
  with assms(1) have "wellFormed (es ! i)" by (simp add: all_nth)
  from wellFormed_bounds [OF this, of ctx] obtain b where "getElementBounds ctx (es ! i) = Inr b"
    by blast
  with Suc i show ?case by auto
qed

lemma hit_wellFormed:
  assumes "list_all wellFormed es"
  shows "\<exists>r. getElementAtPosition ctx es pos = Inr r \<and> (\<forall>el. r = Some el \<longrightarrow> wellFormed el)"
proof -
  from scanDown_wellFormed [OF assms, of "length es" ctx pos]
  obtain r where r: "scanDown ctx es pos (length es) = Inr r" "\<forall>el. r = Some el \<longrightarrow> el \<in> set es"
    by auto
  with assms have "\<forall>el. r = Some el \<longrightarrow> wellFormed el" by (auto simp: list_all_iff)
  with r(1) show ?thesis by (simp add: getElementAtPosition_def)
qed

lemma handle_wellFormed:
  "wellFormed el \<Longrightarrow> \<exists>h. getResizeHandle zm ctx pos el = Inr h"
  using wellFormed_bounds [of el ctx] by (auto simp: getResizeHandle_def Let_def)

lemma mapE_total:
  assumes "list_all P xs" and "\<And>x. P x \<Longrightarrow> \<exists>y. f x = Inr y"
  shows "\<exists>ys. mapE f xs = Inr ys"
  using assms(1)
proof (induction xs)
  case Nil
  then show ?case by simp
next
  case (Cons x xs)
  then obtain ys where "mapE f xs = Inr ys" by auto
  moreover from Cons.prems assms(2) [of x] obtain y where "f x = Inr y" by auto
  ultimately show ?case by simp
qed

lemma resizeElement_total:
  assumes "wellFormed el"
  shows "\<exists>el'. resizeElement ctx sel handle dx dy el = Inr el'"
proof -
  from wellFormed_bounds [OF assms, of ctx] obtain b where b: "getElementBounds ctx el = Inr b"
    by blast
  show ?thesis
  proof (cases "el_data el")
    case (PathData pts col sz pr)
    with assms have "el_type el = Path" by (simp add: wellFormed_def)
    with b show ?thesis by (simp add: resizeElement_def Let_def)
  next
    case (TextData t col sz)
    with b show ?thesis by (simp add: resizeElement_def Let_def)
  qed
qed

lemma handleMouseDown_total:
  assumes "storeOk c"
  shows "\<exists>s. handleMouseDown props ev c e = Inr s"
proof -
  from assms have el: "list_all wellFormed (elements c)" by (simp add: storeOk_def)
  from hit_wellFormed [OF el, of "textCtx ev" "getMousePos ev c (clientOf e)"]
  obtain r where r: "getElementAtPosition (textCtx ev) (elements c) (getMousePos ev c (clientOf e)) = Inr r"
    "\<forall>x. r = Some x \<longrightarrow> wellFormed x" by blast
  show ?thesis
  proof (cases r)
    case None
    with r(1) show ?thesis by (simp add: handleMouseDown_def Let_def)
  next
    case (Some x)
    with r(2) have w: "wellFormed x" by simp
    from handle_wellFormed [OF w, of "zoom c" "textCtx ev" "getMousePos ev c (clientOf e)"]
    obtain h where h: "getResizeHandle (zoom c) (textCtx ev) (getMousePos ev c (clientOf e)) x = Inr h"
      by blast
    from w have t: "el_type x = Text \<Longrightarrow> \<exists>t col sz. el_data x = TextData t col sz"
      by (cases "el_data x") (simp_all add: wellFormed_def)
    show ?thesis
      using r(1) Some h t
      by (cases h) (auto simp: handleMouseDown_def Let_def)
  qed
qed

lemma handleMouseMove_total:
  assumes "storeOk c"
  shows "\<exists>s. handleMouseMove props ev c e = Inr s"
proof -
  from assms have el: "list_all wellFormed (elements c)" by (simp add: storeOk_def)
  have hv: "\<exists>t'. hoverStep props ev c pos t = Inr t'" for pos t
  proof (cases "find (\<lambda>x. Some (el_id x) = selectedElement c) (elements c)")
    case None
    then show ?thesis by (simp add: hoverStep_def)
  next
    case (Some x)
    then have "x \<in> set (elements c)" by (auto simp: find_Some_iff)
    with el have "wellFormed x" by (auto simp: list_all_iff)
    from handle_wellFormed [OF this, of "zoom c" "textCtx ev" pos] Some
    show ?thesis by (auto simp: hoverStep_def)
  qed
  have rs: "\<exists>t'. resizeStep ev c pos t = Inr t'" if "list_all wellFormed (elements t)" for pos t
  proof (cases "resizeHandle c")
    case None
    then show ?thesis by (simp add: resizeStep_def)
  next
    case (Some handle)
    from mapE_total [OF that, of "resizeElement (textCtx ev) (selectedElement c) handle
        (px pos - px (dragStart c)) (py pos - py (dragStart c))"]
    obtain ys where "mapE (resizeElement (textCtx ev) (selectedElement c) handle
        (px pos - px (dragStart c)) (py pos - py (dragStart c))) (elements t) = Inr ys"
      using resizeElement_total by blast
    with Some show ?thesis by (simp add: resizeStep_def Let_def)
  qed
  have dr: "list_all wellFormed (elements (dragStep props c pos t))"
    if "list_all wellFormed (elements t)" for pos t
    using that by (auto simp: dragStep_def Let_def list_all_iff wellFormed_dragElement)
  have hvel: "hoverStep props ev c pos t = Inr t' \<Longrightarrow> elements t' = elements t" for pos t t'
    by (auto simp: hoverStep_def split: if_splits option.splits sum.splits)
  let ?pos = "getMousePos ev c (clientOf e)"
  let ?s1 = "if activeTool props = ToolEraser then
                  (case canvasRect ev of
                     None \<Rightarrow> c
                   | Some r \<Rightarrow>
                       c\<lparr>eraserPosition :=
                           \<lparr>er_x = clientX e - r_left r, er_y = clientY e - r_top r,
                            er_visible = True\<rparr>\<rparr>)
                else c\<lparr>eraserPosition := (eraserPosition c)\<lparr>er_visible := False\<rparr>\<rparr>"
  have e1: "elements ?s1 = elements c" by (simp split: option.splits)
  from hv [of ?pos ?s1] obtain s2 where s2: "hoverStep props ev c ?pos ?s1 = Inr s2" by blast
  from hvel [OF s2] e1 el have e2: "list_all wellFormed (elements s2)" by simp
  then have e3: "list_all wellFormed (elements (s2\<lparr>currentPath := p\<rparr>))" for p by simp
  from rs [OF dr [OF e2]] rs [OF dr [OF e3]] show ?thesis
    using s2 by (simp add: handleMouseMove_def Let_def)
qed

end
